theory Spec2Isabelle
  imports Complex_Main
begin

section \<open>The client service: circuit breaker, retry engine and dispatch routes\<close>

text \<open>
  A shallow embedding of \<^verbatim>\<open>client-service/src/index.ts\<close>. One request is followed
  from its start to its response; requests that interleave at an \<^verbatim>\<open>await\<close> are outside
  the model. JavaScript numbers that hold counts and millisecond timestamps are integers,
  the delays of the retry engine are exact reals (no IEEE rounding), and
  \<^verbatim>\<open>console.log\<close> is dropped.
\<close>

subsection \<open>The environment\<close>

type_synonym payload = string

text \<open>The response object that axios attaches to an error: a status and a body.\<close>

record response =
  status :: int
  data :: payload

text \<open>
  An Error object as the code reads it: \<^verbatim>\<open>error.message\<close> and the optional
  \<^verbatim>\<open>error.response\<close>.
\<close>

record err =
  message :: string
  response :: "response option"

text \<open>
  What a promise can reject with: an Error object, or \<^verbatim>\<open>undefined\<close>, which only
  \<^verbatim>\<open>throw lastError!\<close> can produce (when the loop body never ran).
\<close>

datatype thrown = Undefined | Error err

text \<open>
  Everything outside the process. Each call of \<^verbatim>\<open>Date.now()\<close> and of
  \<^verbatim>\<open>Math.random()\<close> takes the next value of its source; the downstream service answers
  its k-th request with \<open>op_src k\<close> (\<open>Inr\<close> the body of a 2xx answer, \<open>Inl\<close> the error
  axios rejects with); \<open>slept\<close> lists the \<^verbatim>\<open>setTimeout\<close> delays awaited so far.
\<close>

record world =
  now_src :: "nat \<Rightarrow> int"
  now_reads :: nat
  rand_src :: "nat \<Rightarrow> real"
  rand_reads :: nat
  op_src :: "nat \<Rightarrow> err + payload"
  op_calls :: nat
  slept :: "real list"

definition Date_now :: "world \<Rightarrow> int \<times> world" where
  "Date_now w = (now_src w (now_reads w), w\<lparr>now_reads := Suc (now_reads w)\<rparr>)"

definition Math_random :: "world \<Rightarrow> real \<times> world" where
  "Math_random w = (rand_src w (rand_reads w), w\<lparr>rand_reads := Suc (rand_reads w)\<rparr>)"

definition setTimeout :: "real \<Rightarrow> world \<Rightarrow> world" where
  "setTimeout delay w = w\<lparr>slept := slept w @ [delay]\<rparr>"

text \<open>One request to the backend (\<^verbatim>\<open>axios.post\<close> or \<^verbatim>\<open>axios.get\<close>).\<close>

definition downstream :: "world \<Rightarrow> (err + payload) \<times> world" where
  "downstream w = (op_src w (op_calls w), w\<lparr>op_calls := Suc (op_calls w)\<rparr>)"

subsection \<open>String search\<close>

fun startsWith :: "string \<Rightarrow> string \<Rightarrow> bool" where
  "startsWith s [] = True"
| "startsWith [] (p # ps) = False"
| "startsWith (c # cs) (p # ps) = (c = p \<and> startsWith cs ps)"

text \<open>\<^verbatim>\<open>s.includes(p)\<close>: \<open>p\<close> occurs in \<open>s\<close> as a contiguous run.\<close>

fun str_includes :: "string \<Rightarrow> string \<Rightarrow> bool" where
  "str_includes [] p = (p = [])"
| "str_includes (c # cs) p = (startsWith (c # cs) p \<or> str_includes cs p)"

subsection \<open>CircuitBreaker\<close>

datatype CircuitState = CLOSED | OPEN | HALF_OPEN

record CircuitBreaker =
  state :: CircuitState
  failureCount :: int
  successCount :: int
  lastFailureTime :: int
  nextAttemptTime :: int
  failureThreshold :: int
  resetTimeout :: int
  halfOpenMaxAttempts :: int

definition new_CircuitBreaker :: "int \<Rightarrow> int \<Rightarrow> int \<Rightarrow> CircuitBreaker" where
  "new_CircuitBreaker threshold timeout attempts =
     \<lparr>state = CLOSED, failureCount = 0, successCount = 0, lastFailureTime = 0,
      nextAttemptTime = 0, failureThreshold = threshold, resetTimeout = timeout,
      halfOpenMaxAttempts = attempts\<rparr>"

definition onSuccess :: "CircuitBreaker \<Rightarrow> CircuitBreaker" where
  "onSuccess cb =
     (let cb1 = cb\<lparr>failureCount := 0\<rparr> in
      if state cb1 = HALF_OPEN then
        (let cb2 = cb1\<lparr>successCount := successCount cb1 + 1\<rparr> in
         if successCount cb2 \<ge> halfOpenMaxAttempts cb2
         then cb2\<lparr>state := CLOSED, successCount := 0\<rparr>
         else cb2)
      else cb1)"

definition onFailure :: "CircuitBreaker \<Rightarrow> world \<Rightarrow> CircuitBreaker \<times> world" where
  "onFailure cb w =
     (let cb1 = cb\<lparr>failureCount := failureCount cb + 1\<rparr>;
          (t1, w1) = Date_now w;
          cb2 = cb1\<lparr>lastFailureTime := t1\<rparr>
      in
      if state cb2 = HALF_OPEN then
        (let (t2, w2) = Date_now w1 in
         (cb2\<lparr>state := OPEN, nextAttemptTime := t2 + resetTimeout cb2, successCount := 0\<rparr>, w2))
      else if failureCount cb2 \<ge> failureThreshold cb2 then
        (let (t2, w2) = Date_now w1 in
         (cb2\<lparr>state := OPEN, nextAttemptTime := t2 + resetTimeout cb2\<rparr>, w2))
      else (cb2, w1))"

definition circuit_open_error :: err where
  "circuit_open_error = \<lparr>message = ''Circuit breaker is OPEN - fast failing'', response = None\<rparr>"

text \<open>
  The part of \<^verbatim>\<open>execute\<close> after the gate: the \<^verbatim>\<open>try\<close> block around the operation.
\<close>

definition attempt_operation ::
  "(world \<Rightarrow> (thrown + 'a) \<times> world) \<Rightarrow> CircuitBreaker \<Rightarrow> world \<Rightarrow> (thrown + 'a) \<times> CircuitBreaker \<times> world" where
  "attempt_operation operation cb w =
     (case operation w of
        (Inr result, w1) \<Rightarrow> (Inr result, onSuccess cb, w1)
      | (Inl error, w1) \<Rightarrow> (let (cb1, w2) = onFailure cb w1 in (Inl error, cb1, w2)))"

text \<open>
  \<^verbatim>\<open>execute\<close>. The clock is read at the gate only when the state is OPEN, as the
  nested \<^verbatim>\<open>if\<close> of the source does.
\<close>

definition execute ::
  "(world \<Rightarrow> (thrown + 'a) \<times> world) \<Rightarrow> CircuitBreaker \<Rightarrow> world \<Rightarrow> (thrown + 'a) \<times> CircuitBreaker \<times> world" where
  "execute operation cb w =
     (if state cb = OPEN then
        (let (now, w1) = Date_now w in
         if now \<ge> nextAttemptTime cb
         then attempt_operation operation (cb\<lparr>state := HALF_OPEN, successCount := 0\<rparr>) w1
         else (Inl (Error circuit_open_error), cb, w1))
      else attempt_operation operation cb w)"

text \<open>
  \<^verbatim>\<open>getState\<close>. The ISO string of the source is kept as the timestamp it renders.
\<close>

record BreakerStatus =
  st_state :: CircuitState
  st_failureCount :: int
  st_successCount :: int
  st_nextAttemptTime :: "int option"

definition getState :: "CircuitBreaker \<Rightarrow> BreakerStatus" where
  "getState cb =
     \<lparr>st_state = state cb, st_failureCount = failureCount cb, st_successCount = successCount cb,
      st_nextAttemptTime = (if state cb = OPEN then Some (nextAttemptTime cb) else None)\<rparr>"

definition reset :: "CircuitBreaker \<Rightarrow> CircuitBreaker" where
  "reset cb = cb\<lparr>state := CLOSED, failureCount := 0, successCount := 0, nextAttemptTime := 0\<rparr>"

subsection \<open>retryWithBackoff\<close>

record RetryConfig =
  maxRetries :: int
  initialDelay :: real
  maxDelay :: real
  backoffMultiplier :: real
  jitterFactor :: real

definition default_config :: RetryConfig where
  "default_config =
     \<lparr>maxRetries = 3, initialDelay = 1000, maxDelay = 10000, backoffMultiplier = 2,
      jitterFactor = 3 / 10\<rparr>"

text \<open>
  \<^verbatim>\<open>error.response?.status >= 400 && error.response?.status < 500\<close>: false when the
  error carries no response.
\<close>

definition is_client_error :: "err \<Rightarrow> bool" where
  "is_client_error error =
     (case response error of None \<Rightarrow> False | Some r \<Rightarrow> status r \<ge> 400 \<and> status r < 500)"

definition is_circuit_open :: "err \<Rightarrow> bool" where
  "is_circuit_open error = str_includes (message error) ''Circuit breaker is OPEN''"

text \<open>The three \<^verbatim>\<open>const\<close>s computed before a retry, for attempt index and random draw.\<close>

definition baseDelay :: "RetryConfig \<Rightarrow> nat \<Rightarrow> real" where
  "baseDelay config attempt =
     min (initialDelay config * backoffMultiplier config ^ attempt) (maxDelay config)"

definition jitter :: "RetryConfig \<Rightarrow> nat \<Rightarrow> real \<Rightarrow> real" where
  "jitter config attempt random =
     baseDelay config attempt * jitterFactor config * (random * 2 - 1)"

definition delay :: "RetryConfig \<Rightarrow> nat \<Rightarrow> real \<Rightarrow> real" where
  "delay config attempt random = max 0 (baseDelay config attempt + jitter config attempt random)"

text \<open>
  The \<^verbatim>\<open>for\<close> loop with its counter and \<^verbatim>\<open>lastError\<close>; leaving the loop reaches
  \<^verbatim>\<open>throw lastError!\<close>.
\<close>

function retry_loop ::
  "(world \<Rightarrow> (err + 'a) \<times> world) \<Rightarrow> RetryConfig \<Rightarrow> nat \<Rightarrow> err option \<Rightarrow> world \<Rightarrow> (thrown + 'a) \<times> world" where
  "retry_loop operation config attempt lastError w =
     (if int attempt \<le> maxRetries config then
        (case operation w of
           (Inr result, w1) \<Rightarrow> (Inr result, w1)
         | (Inl error, w1) \<Rightarrow>
             if is_client_error error then (Inl (Error error), w1)
             else if is_circuit_open error then (Inl (Error error), w1)
             else if int attempt < maxRetries config then
               (let (random, w2) = Math_random w1;
                    w3 = setTimeout (delay config attempt random) w2
                in retry_loop operation config (Suc attempt) (Some error) w3)
             else retry_loop operation config (Suc attempt) (Some error) w1)
      else (case lastError of None \<Rightarrow> (Inl Undefined, w) | Some error \<Rightarrow> (Inl (Error error), w)))"
  by pat_completeness auto
termination
  by (relation "measure (\<lambda>(operation, config, attempt, lastError, w). nat (maxRetries config + 1 - int attempt))") auto

declare retry_loop.simps [simp del]

definition retryWithBackoff ::
  "(world \<Rightarrow> (err + 'a) \<times> world) \<Rightarrow> RetryConfig \<Rightarrow> world \<Rightarrow> (thrown + 'a) \<times> world" where
  "retryWithBackoff operation config w = retry_loop operation config 0 None w"

subsection \<open>The routes\<close>

text \<open>The process-wide breaker, as constructed at start.\<close>

definition circuitBreaker :: CircuitBreaker where
  "circuitBreaker = new_CircuitBreaker 5 60000 3"

text \<open>
  A response body: a payload passed on as it is, the 503 object (\<^verbatim>\<open>error\<close>,
  \<^verbatim>\<open>circuitState\<close>) or the 500 object (\<^verbatim>\<open>error\<close>, \<^verbatim>\<open>details\<close>).
\<close>

datatype body = Json payload | Unavailable string BreakerStatus | Failed string string

record http_response =
  http_status :: int
  http_body :: body

text \<open>
  \<^verbatim>\<open>POST /api/users/register\<close>, given the breaker as the request finds it. Reading
  \<^verbatim>\<open>error.message\<close> of \<^verbatim>\<open>undefined\<close> throws inside the \<^verbatim>\<open>catch\<close> block, and
  no response is sent: \<open>None\<close>.
\<close>

definition post_register ::
  "CircuitBreaker \<Rightarrow> world \<Rightarrow> http_response option \<times> CircuitBreaker \<times> world" where
  "post_register cb w =
     (case execute (retryWithBackoff downstream default_config) cb w of
        (Inr result, cb1, w1) \<Rightarrow> (Some \<lparr>http_status = 201, http_body = Json result\<rparr>, cb1, w1)
      | (Inl Undefined, cb1, w1) \<Rightarrow> (None, cb1, w1)
      | (Inl (Error error), cb1, w1) \<Rightarrow>
          if is_circuit_open error then
            (Some \<lparr>http_status = 503,
                   http_body = Unavailable ''Service temporarily unavailable - circuit breaker is open''
                                 (getState cb1)\<rparr>, cb1, w1)
          else (case response error of
                  Some r \<Rightarrow> (Some \<lparr>http_status = status r, http_body = Json (data r)\<rparr>, cb1, w1)
                | None \<Rightarrow>
                    (Some \<lparr>http_status = 500,
                           http_body = Failed ''Failed to register user'' (message error)\<rparr>, cb1, w1)))"

text \<open>\<^verbatim>\<open>GET /api/users\<close>.\<close>

definition get_users ::
  "CircuitBreaker \<Rightarrow> world \<Rightarrow> http_response option \<times> CircuitBreaker \<times> world" where
  "get_users cb w =
     (case execute (retryWithBackoff downstream default_config) cb w of
        (Inr result, cb1, w1) \<Rightarrow> (Some \<lparr>http_status = 200, http_body = Json result\<rparr>, cb1, w1)
      | (Inl Undefined, cb1, w1) \<Rightarrow> (None, cb1, w1)
      | (Inl (Error error), cb1, w1) \<Rightarrow>
          if is_circuit_open error then
            (Some \<lparr>http_status = 503,
                   http_body = Unavailable ''Service temporarily unavailable'' (getState cb1)\<rparr>, cb1, w1)
          else
            (Some \<lparr>http_status = 500,
                   http_body = Failed ''Failed to fetch users'' (message error)\<rparr>, cb1, w1))"

text \<open>\<^verbatim>\<open>POST /circuit-breaker/reset\<close>.\<close>

definition post_reset :: "CircuitBreaker \<Rightarrow> BreakerStatus \<times> CircuitBreaker" where
  "post_reset cb = (let cb1 = reset cb in (getState cb1, cb1))"

subsection \<open>The gate of execute, and calls in sequence\<close>

text \<open>
  The gate lets a call through unless the state is OPEN and the clock, read once, is
  still before \<open>nextAttemptTime\<close>. A call let through meets the breaker and the world
  as the gate leaves them.
\<close>

definition admitted :: "CircuitBreaker \<Rightarrow> world \<Rightarrow> bool" where
  "admitted cb w = (state cb = OPEN \<longrightarrow> fst (Date_now w) \<ge> nextAttemptTime cb)"

definition gate_breaker :: "CircuitBreaker \<Rightarrow> CircuitBreaker" where
  "gate_breaker cb = (if state cb = OPEN then cb\<lparr>state := HALF_OPEN, successCount := 0\<rparr> else cb)"

definition gate_world :: "CircuitBreaker \<Rightarrow> world \<Rightarrow> world" where
  "gate_world cb w = (if state cb = OPEN then snd (Date_now w) else w)"

text \<open>
  Calls of \<^verbatim>\<open>execute\<close> one after the other on the same breaker, each awaited before
  the next starts, their outcomes dropped.
\<close>

fun execute_each ::
  "(world \<Rightarrow> (thrown + 'a) \<times> world) list \<Rightarrow> CircuitBreaker \<Rightarrow> world \<Rightarrow> CircuitBreaker \<times> world" where
  "execute_each [] cb w = (cb, w)"
| "execute_each (operation # operations) cb w =
     (case execute operation cb w of (outcome, cb1, w1) \<Rightarrow> execute_each operations cb1 w1)"

definition always_fails :: "(world \<Rightarrow> (thrown + 'a) \<times> world) \<Rightarrow> bool" where
  "always_fails operation = (\<forall>w. isl (fst (operation w)))"

definition always_succeeds :: "(world \<Rightarrow> (thrown + 'a) \<times> world) \<Rightarrow> bool" where
  "always_succeeds operation = (\<forall>w. \<not> isl (fst (operation w)))"

text \<open>An error of the downstream service that the retry engine retries.\<close>

definition retryable :: "err \<Rightarrow> bool" where
  "retryable error = (\<not> is_client_error error \<and> \<not> is_circuit_open error)"

subsection \<open>Sample inputs\<close>

definition not_found :: err where
  "not_found =
     \<lparr>message = ''Request failed with status code 404'',
      response = Some \<lparr>status = 404, data = ''User not found''\<rparr>\<rparr>"

definition server_error :: err where
  "server_error =
     \<lparr>message = ''Request failed with status code 500'',
      response = Some \<lparr>status = 500, data = ''Simulated backend failure''\<rparr>\<rparr>"

definition timed_out :: err where
  "timed_out = \<lparr>message = ''timeout of 5000ms exceeded'', response = None\<rparr>"

text \<open>
  A backend error whose own text happens to hold the breaker's words.
\<close>

definition echoing_error :: err where
  "echoing_error =
     \<lparr>message = ''upstream says: Circuit breaker is OPEN'',
      response = Some \<lparr>status = 500, data = ''proxy failure''\<rparr>\<rparr>"

text \<open>
  A world whose clock stands at \<open>now\<close>, whose random draws are all \<open>random\<close> and
  whose backend answers by \<open>replies\<close>.
\<close>

definition sample_world :: "int \<Rightarrow> real \<Rightarrow> (nat \<Rightarrow> err + payload) \<Rightarrow> world" where
  "sample_world now random replies =
     \<lparr>now_src = (\<lambda>k. now), now_reads = 0, rand_src = (\<lambda>k. random), rand_reads = 0,
      op_src = replies, op_calls = 0, slept = []\<rparr>"

section \<open>Properties\<close>

subsection \<open>Steps of the breaker\<close>

lemma Date_now_fst: "fst (Date_now w) = now_src w (now_reads w)"
  by (simp add: Date_now_def)

lemma Date_now_snd: "snd (Date_now w) = w\<lparr>now_reads := Suc (now_reads w)\<rparr>"
  by (simp add: Date_now_def)

lemma onFailure_HALF_OPEN:
  "state cb = HALF_OPEN \<Longrightarrow>
   onFailure cb w =
     (cb\<lparr>failureCount := failureCount cb + 1, lastFailureTime := now_src w (now_reads w),
         state := OPEN, nextAttemptTime := now_src w (Suc (now_reads w)) + resetTimeout cb,
         successCount := 0\<rparr>,
      w\<lparr>now_reads := Suc (Suc (now_reads w))\<rparr>)"
  by (simp add: onFailure_def Date_now_def Let_def)

lemma onFailure_trip:
  "state cb \<noteq> HALF_OPEN \<Longrightarrow> failureThreshold cb \<le> failureCount cb + 1 \<Longrightarrow>
   onFailure cb w =
     (cb\<lparr>failureCount := failureCount cb + 1, lastFailureTime := now_src w (now_reads w),
         state := OPEN, nextAttemptTime := now_src w (Suc (now_reads w)) + resetTimeout cb\<rparr>,
      w\<lparr>now_reads := Suc (Suc (now_reads w))\<rparr>)"
  by (simp add: onFailure_def Date_now_def Let_def)

lemma onFailure_below:
  "state cb \<noteq> HALF_OPEN \<Longrightarrow> failureCount cb + 1 < failureThreshold cb \<Longrightarrow>
   onFailure cb w =
     (cb\<lparr>failureCount := failureCount cb + 1, lastFailureTime := now_src w (now_reads w)\<rparr>,
      w\<lparr>now_reads := Suc (now_reads w)\<rparr>)"
  by (simp add: onFailure_def Date_now_def Let_def)

lemma onFailure_failureCount: "failureCount (fst (onFailure cb w)) = failureCount cb + 1"
  by (simp add: onFailure_def Date_now_def Let_def)

lemma onFailure_lastFailureTime: "lastFailureTime (fst (onFailure cb w)) = fst (Date_now w)"
  by (simp add: onFailure_def Date_now_def Let_def)

lemma attempt_operation_failure:
  "operation w = (Inl e, w1) \<Longrightarrow>
   attempt_operation operation cb w = (Inl e, fst (onFailure cb w1), snd (onFailure cb w1))"
  by (simp add: attempt_operation_def split: prod.splits)

lemma attempt_operation_success:
  "operation w = (Inr v, w1) \<Longrightarrow> attempt_operation operation cb w = (Inr v, onSuccess cb, w1)"
  by (simp add: attempt_operation_def)

lemma execute_rejected:
  "state cb = OPEN \<Longrightarrow> fst (Date_now w) < nextAttemptTime cb \<Longrightarrow>
   execute operation cb w = (Inl (Error circuit_open_error), cb, snd (Date_now w))"
  by (simp add: execute_def case_prod_beta)

lemma execute_probe:
  "state cb = OPEN \<Longrightarrow> nextAttemptTime cb \<le> fst (Date_now w) \<Longrightarrow>
   execute operation cb w =
     attempt_operation operation (cb\<lparr>state := HALF_OPEN, successCount := 0\<rparr>) (snd (Date_now w))"
  by (simp add: execute_def case_prod_beta)

lemma execute_not_OPEN:
  "state cb \<noteq> OPEN \<Longrightarrow> execute operation cb w = attempt_operation operation cb w"
  by (simp add: execute_def)

lemma execute_admitted:
  "admitted cb w \<Longrightarrow>
   execute operation cb w = attempt_operation operation (gate_breaker cb) (gate_world cb w)"
  by (simp add: admitted_def gate_breaker_def gate_world_def execute_probe execute_not_OPEN)

lemma execute_admitted_failure:
  assumes "admitted cb w" and "operation (gate_world cb w) = (Inl e, w1)"
  shows "execute operation cb w =
           (Inl e, fst (onFailure (gate_breaker cb) w1), snd (onFailure (gate_breaker cb) w1))"
  using assms by (simp add: execute_admitted attempt_operation_failure)

lemma execute_admitted_success:
  assumes "admitted cb w" and "operation (gate_world cb w) = (Inr v, w1)"
  shows "execute operation cb w = (Inr v, onSuccess (gate_breaker cb), w1)"
  using assms by (simp add: execute_admitted attempt_operation_success)

lemma gate_breaker_failureCount: "failureCount (gate_breaker cb) = failureCount cb"
  by (simp add: gate_breaker_def)

lemma gate_breaker_state:
  "state (gate_breaker cb) = (if state cb = CLOSED then CLOSED else HALF_OPEN)"
  by (cases "state cb") (simp_all add: gate_breaker_def)

lemma onFailure_reopens:
  "state cb = HALF_OPEN \<Longrightarrow> state (fst (onFailure cb w)) = OPEN"
  by (simp add: onFailure_HALF_OPEN)

lemma sample_world_simps:
  "now_src (sample_world now random replies) = (\<lambda>k. now)"
  "now_reads (sample_world now random replies) = 0"
  "rand_src (sample_world now random replies) = (\<lambda>k. random)"
  "rand_reads (sample_world now random replies) = 0"
  "op_src (sample_world now random replies) = replies"
  "op_calls (sample_world now random replies) = 0"
  "slept (sample_world now random replies) = []"
  by (simp_all add: sample_world_def)

lemma retry_loop_stop:
  assumes "int attempt \<le> maxRetries config" and "operation w = (Inl error, w1)"
    and "is_client_error error \<or> is_circuit_open error"
  shows "retry_loop operation config attempt lastError w = (Inl (Error error), w1)"
  using assms by (subst retry_loop.simps) auto

lemma retry_loop_result:
  assumes "int attempt \<le> maxRetries config" and "operation w = (Inr result, w1)"
  shows "retry_loop operation config attempt lastError w = (Inr result, w1)"
  using assms by (subst retry_loop.simps) simp

lemma is_client_error_not_found: "is_client_error not_found"
  by (simp add: is_client_error_def not_found_def)

subsection \<open>Rejection while OPEN\<close>

text \<open>
  C2. While the state is OPEN and the clock read at the gate is before
  \<open>nextAttemptTime\<close>, \<^verbatim>\<open>execute\<close> fails with the error whose message is
  "Circuit breaker is OPEN - fast failing", for every operation it is given; the
  breaker is returned as it was (state, \<open>failureCount\<close>, \<open>successCount\<close>,
  \<open>nextAttemptTime\<close> and the rest), and the world has only lost one clock reading: no
  request went downstream and nothing was slept.
\<close>

theorem open_breaker_rejects_without_calling:
  assumes "state cb = OPEN" and "fst (Date_now w) < nextAttemptTime cb"
  shows "execute operation cb w = (Inl (Error circuit_open_error), cb, snd (Date_now w))
       \<and> op_calls (snd (Date_now w)) = op_calls w
       \<and> slept (snd (Date_now w)) = slept w
       \<and> is_circuit_open circuit_open_error
       \<and> response circuit_open_error = None"
  using assms by (simp add: execute_rejected Date_now_snd is_circuit_open_def circuit_open_error_def)

theorem open_breaker_rejects_without_calling_witness:
  "state (circuitBreaker\<lparr>state := OPEN, nextAttemptTime := 2000\<rparr>) = OPEN
   \<and> fst (Date_now (sample_world 1000 0 (\<lambda>k. Inr ''ok'')))
       < nextAttemptTime (circuitBreaker\<lparr>state := OPEN, nextAttemptTime := 2000\<rparr>)
   \<and> execute (retryWithBackoff downstream default_config)
        (circuitBreaker\<lparr>state := OPEN, nextAttemptTime := 2000\<rparr>)
        (sample_world 1000 0 (\<lambda>k. Inr ''ok''))
      = (Inl (Error circuit_open_error), circuitBreaker\<lparr>state := OPEN, nextAttemptTime := 2000\<rparr>,
         (sample_world 1000 0 (\<lambda>k. Inr ''ok''))\<lparr>now_reads := 1\<rparr>)"
  using open_breaker_rejects_without_calling [of "circuitBreaker\<lparr>state := OPEN, nextAttemptTime := 2000\<rparr>"
      "sample_world 1000 0 (\<lambda>k. Inr ''ok'')" "retryWithBackoff downstream default_config"]
  by (simp add: Date_now_def sample_world_simps)

subsection \<open>Failures are counted in every state\<close>

text \<open>
  C9. When the gate lets a call through and the operation fails, \<^verbatim>\<open>execute\<close> passes
  the operation's error on, \<open>failureCount\<close> is one more than before and
  \<open>lastFailureTime\<close> is the clock read when the operation returned. This holds in
  every state; from HALF_OPEN (and from OPEN once the timeout has passed) the breaker is
  OPEN afterwards, with \<open>failureCount\<close> still one more than before the probe.
\<close>

theorem admitted_failure_increments_failureCount:
  assumes "admitted cb w" and "operation (gate_world cb w) = (Inl e, w1)"
  shows "fst (execute operation cb w) = Inl e
       \<and> failureCount (fst (snd (execute operation cb w))) = failureCount cb + 1
       \<and> lastFailureTime (fst (snd (execute operation cb w))) = fst (Date_now w1)
       \<and> (state cb \<noteq> CLOSED \<longrightarrow> state (fst (snd (execute operation cb w))) = OPEN)"
  using assms
  by (simp add: execute_admitted_failure onFailure_failureCount onFailure_lastFailureTime
      gate_breaker_failureCount onFailure_reopens gate_breaker_state)

theorem admitted_failure_increments_failureCount_witness:
  "admitted (circuitBreaker\<lparr>state := HALF_OPEN, failureCount := 5, successCount := 2\<rparr>)
     (sample_world 1000 0 (\<lambda>k. Inl timed_out))
   \<and> state (fst (snd (execute (\<lambda>w. (Inl (Error timed_out) :: thrown + payload, w))
        (circuitBreaker\<lparr>state := HALF_OPEN, failureCount := 5, successCount := 2\<rparr>)
        (sample_world 1000 0 (\<lambda>k. Inl timed_out))))) = OPEN
   \<and> failureCount (fst (snd (execute (\<lambda>w. (Inl (Error timed_out) :: thrown + payload, w))
        (circuitBreaker\<lparr>state := HALF_OPEN, failureCount := 5, successCount := 2\<rparr>)
        (sample_world 1000 0 (\<lambda>k. Inl timed_out))))) = 6
   \<and> lastFailureTime (fst (snd (execute (\<lambda>w. (Inl (Error timed_out) :: thrown + payload, w))
        (circuitBreaker\<lparr>state := HALF_OPEN, failureCount := 5, successCount := 2\<rparr>)
        (sample_world 1000 0 (\<lambda>k. Inl timed_out))))) = 1000"
  using admitted_failure_increments_failureCount [of "circuitBreaker\<lparr>state := HALF_OPEN, failureCount := 5, successCount := 2\<rparr>"
      "sample_world 1000 0 (\<lambda>k. Inl timed_out)" "\<lambda>w. (Inl (Error timed_out) :: thrown + payload, w)"
      "Error timed_out" "sample_world 1000 0 (\<lambda>k. Inl timed_out)"]
  by (simp add: admitted_def gate_world_def Date_now_def sample_world_simps)

subsection \<open>The administrative reset\<close>

text \<open>
  C6. \<^verbatim>\<open>reset\<close> assigns \<open>state\<close>, \<open>failureCount\<close>, \<open>successCount\<close> and
  \<open>nextAttemptTime\<close>, and leaves \<open>lastFailureTime\<close> as it was: after one failed
  registration at time 1700000000000 on the breaker as constructed, the reset breaker
  still holds that time as its last failure, not 0.
\<close>

theorem reset_keeps_lastFailureTime:
  "lastFailureTime (reset (fst (snd (execute (retryWithBackoff downstream default_config)
       circuitBreaker (sample_world 1700000000000 0 (\<lambda>k. Inl not_found)))))) = 1700000000000
   \<and> lastFailureTime (reset (fst (snd (execute (retryWithBackoff downstream default_config)
       circuitBreaker (sample_world 1700000000000 0 (\<lambda>k. Inl not_found)))))) \<noteq> 0"
proof -
  let ?w = "sample_world 1700000000000 0 (\<lambda>k. Inl not_found)"
  have "retryWithBackoff downstream default_config ?w
          = (Inl (Error not_found), ?w\<lparr>op_calls := Suc 0\<rparr>)"
    unfolding retryWithBackoff_def
    by (rule retry_loop_stop)
      (simp_all add: default_config_def downstream_def sample_world_simps is_client_error_not_found)
  then show ?thesis
    by (simp add: execute_def circuitBreaker_def new_CircuitBreaker_def attempt_operation_def
        onFailure_def Date_now_def reset_def sample_world_simps Let_def)
qed

subsection \<open>Calls in sequence\<close>

lemma always_failsE:
  assumes "always_fails operation"
  obtains e w1 where "operation w = (Inl e, w1)"
proof -
  from assms have "isl (fst (operation w))" by (simp add: always_fails_def)
  then obtain e where "fst (operation w) = Inl e" by (auto simp: isl_def)
  then have "operation w = (Inl e, snd (operation w))" by (metis prod.collapse)
  then show ?thesis using that by blast
qed

lemma always_succeedsE:
  assumes "always_succeeds operation"
  obtains v w1 where "operation w = (Inr v, w1)"
proof -
  from assms have "\<not> isl (fst (operation w))" by (simp add: always_succeeds_def)
  then obtain v where "fst (operation w) = Inr v" by (cases "fst (operation w)") auto
  then have "operation w = (Inr v, snd (operation w))" by (metis prod.collapse)
  then show ?thesis using that by blast
qed

lemma execute_each_append:
  "execute_each (xs @ ys) cb w =
     (case execute_each xs cb w of (cb1, w1) \<Rightarrow> execute_each ys cb1 w1)"
  by (induction xs arbitrary: cb w) (auto split: prod.splits)

lemma execute_CLOSED_failure_below:
  assumes "state cb = CLOSED" and "operation w = (Inl e, w1)"
    and "failureCount cb + 1 < failureThreshold cb"
  shows "execute operation cb w =
           (Inl e, cb\<lparr>failureCount := failureCount cb + 1, lastFailureTime := fst (Date_now w1)\<rparr>,
            snd (Date_now w1))"
  using assms
  by (simp add: execute_not_OPEN attempt_operation_failure onFailure_below Date_now_def)

lemma execute_CLOSED_failure_trip:
  assumes "state cb = CLOSED" and "operation w = (Inl e, w1)"
    and "failureThreshold cb \<le> failureCount cb + 1"
  shows "execute operation cb w =
           (Inl e,
            cb\<lparr>failureCount := failureCount cb + 1, lastFailureTime := fst (Date_now w1),
               state := OPEN,
               nextAttemptTime := fst (Date_now (snd (Date_now w1))) + resetTimeout cb\<rparr>,
            snd (Date_now (snd (Date_now w1))))"
  using assms
  by (simp add: execute_not_OPEN attempt_operation_failure onFailure_trip Date_now_def)

lemma execute_CLOSED_success:
  assumes "state cb = CLOSED" and "operation w = (Inr v, w1)"
  shows "execute operation cb w = (Inr v, cb\<lparr>failureCount := 0\<rparr>, w1)"
  using assms by (simp add: execute_not_OPEN attempt_operation_success onSuccess_def)

lemma execute_HALF_OPEN_success_below:
  assumes "state cb = HALF_OPEN" and "operation w = (Inr v, w1)"
    and "successCount cb + 1 < halfOpenMaxAttempts cb"
  shows "execute operation cb w =
           (Inr v, cb\<lparr>failureCount := 0, successCount := successCount cb + 1\<rparr>, w1)"
  using assms by (simp add: execute_not_OPEN attempt_operation_success onSuccess_def)

lemma execute_HALF_OPEN_success_close:
  assumes "state cb = HALF_OPEN" and "operation w = (Inr v, w1)"
    and "halfOpenMaxAttempts cb \<le> successCount cb + 1"
  shows "execute operation cb w =
           (Inr v, cb\<lparr>failureCount := 0, successCount := 0, state := CLOSED\<rparr>, w1)"
  using assms by (simp add: execute_not_OPEN attempt_operation_success onSuccess_def)

lemma execute_HALF_OPEN_failure:
  assumes "state cb = HALF_OPEN" and "operation w = (Inl e, w1)"
  shows "execute operation cb w =
           (Inl e,
            cb\<lparr>failureCount := failureCount cb + 1, lastFailureTime := fst (Date_now w1),
               state := OPEN,
               nextAttemptTime := fst (Date_now (snd (Date_now w1))) + resetTimeout cb,
               successCount := 0\<rparr>,
            snd (Date_now (snd (Date_now w1))))"
  using assms
  by (simp add: execute_not_OPEN attempt_operation_failure onFailure_HALF_OPEN Date_now_def)

lemma execute_OPEN_elapsed:
  assumes "state cb = OPEN" and "nextAttemptTime cb \<le> fst (Date_now w)"
  shows "execute operation cb w =
           execute operation (cb\<lparr>state := HALF_OPEN, successCount := 0\<rparr>) (snd (Date_now w))"
  using assms by (simp add: execute_probe execute_not_OPEN)

lemma execute_each_failures_below:
  assumes "\<forall>operation \<in> set operations. always_fails operation"
    and "state cb = CLOSED"
    and "failureCount cb + int (length operations) < failureThreshold cb"
  shows "\<exists>t. fst (execute_each operations cb w) =
              cb\<lparr>failureCount := failureCount cb + int (length operations), lastFailureTime := t\<rparr>"
  using assms
proof (induction operations arbitrary: cb w)
  case Nil
  have "cb = cb\<lparr>failureCount := failureCount cb, lastFailureTime := lastFailureTime cb\<rparr>" by simp
  then show ?case by (metis add.right_neutral execute_each.simps(1) fst_conv list.size(3) of_nat_0)
next
  case (Cons operation operations)
  from Cons.prems(1) have "always_fails operation" by simp
  then obtain e w1 where op: "operation w = (Inl e, w1)" by (rule always_failsE)
  let ?cb1 = "cb\<lparr>failureCount := failureCount cb + 1, lastFailureTime := fst (Date_now w1)\<rparr>"
  from Cons.prems have below: "failureCount cb + 1 < failureThreshold cb" by simp
  have step: "execute operation cb w = (Inl e, ?cb1, snd (Date_now w1))"
    using Cons.prems(2) op below by (rule execute_CLOSED_failure_below)
  have "\<exists>t. fst (execute_each operations ?cb1 (snd (Date_now w1))) =
          ?cb1\<lparr>failureCount := failureCount ?cb1 + int (length operations), lastFailureTime := t\<rparr>"
    using Cons.prems by (intro Cons.IH) simp_all
  then obtain t where "fst (execute_each operations ?cb1 (snd (Date_now w1))) =
          ?cb1\<lparr>failureCount := failureCount ?cb1 + int (length operations), lastFailureTime := t\<rparr>" ..
  then have "fst (execute_each (operation # operations) cb w) =
      cb\<lparr>failureCount := failureCount cb + int (length (operation # operations)), lastFailureTime := t\<rparr>"
    by (simp add: step add.commute add.left_commute)
  then show ?case ..
qed

lemma execute_each_successes_below:
  assumes "\<forall>operation \<in> set operations. always_succeeds operation"
    and "state cb = HALF_OPEN" and "operations \<noteq> []"
    and "successCount cb + int (length operations) < halfOpenMaxAttempts cb"
  shows "fst (execute_each operations cb w) =
           cb\<lparr>failureCount := 0, successCount := successCount cb + int (length operations)\<rparr>"
  using assms
proof (induction operations arbitrary: cb w)
  case Nil
  then show ?case by simp
next
  case (Cons operation operations)
  from Cons.prems(1) have "always_succeeds operation" by simp
  then obtain v w1 where op: "operation w = (Inr v, w1)" by (rule always_succeedsE)
  let ?cb1 = "cb\<lparr>failureCount := 0, successCount := successCount cb + 1\<rparr>"
  from Cons.prems have below: "successCount cb + 1 < halfOpenMaxAttempts cb" by simp
  have step: "execute operation cb w = (Inr v, ?cb1, w1)"
    using Cons.prems(2) op below by (rule execute_HALF_OPEN_success_below)
  show ?case
  proof (cases "operations = []")
    case True
    then show ?thesis by (simp add: step)
  next
    case False
    have "fst (execute_each operations ?cb1 w1) =
            ?cb1\<lparr>failureCount := 0, successCount := successCount ?cb1 + int (length operations)\<rparr>"
      using Cons.prems False by (intro Cons.IH) simp_all
    then show ?thesis by (simp add: step add.commute add.left_commute)
  qed
qed

lemma execute_each_snoc:
  "fst (execute_each (operations @ [operation]) cb w) =
     fst (snd (execute operation (fst (execute_each operations cb w)) (snd (execute_each operations cb w))))"
  by (simp add: execute_each_append split: prod.splits)

lemma failures_keep_closed:
  assumes "\<forall>operation \<in> set operations. always_fails operation"
    and "state cb = CLOSED" and "failureCount cb = 0"
    and "int (length operations) < failureThreshold cb"
  shows "state (fst (execute_each operations cb w)) = CLOSED
       \<and> failureCount (fst (execute_each operations cb w)) = int (length operations)
       \<and> failureThreshold (fst (execute_each operations cb w)) = failureThreshold cb"
proof -
  from assms have "\<exists>t. fst (execute_each operations cb w) =
      cb\<lparr>failureCount := failureCount cb + int (length operations), lastFailureTime := t\<rparr>"
    by (intro execute_each_failures_below) simp_all
  then obtain t where "fst (execute_each operations cb w) =
      cb\<lparr>failureCount := failureCount cb + int (length operations), lastFailureTime := t\<rparr>" ..
  then show ?thesis using assms(2,3) by simp
qed

lemma threshold_failures_open:
  assumes "\<forall>operation \<in> set operations. always_fails operation"
    and "state cb = CLOSED" and "failureCount cb = 0" and "1 \<le> failureThreshold cb"
    and "int (length operations) = failureThreshold cb"
  shows "state (fst (execute_each operations cb w)) = OPEN"
proof -
  from assms(4,5) have ne: "operations \<noteq> []" by auto
  let ?init = "butlast operations" and ?op = "last operations"
  let ?cb1 = "fst (execute_each ?init cb w)" and ?w1 = "snd (execute_each ?init cb w)"
  have split: "operations = ?init @ [?op]" using ne by simp
  have len: "int (length ?init) = failureThreshold cb - 1" using ne assms(5) by (cases operations) auto
  have "\<forall>operation \<in> set ?init. always_fails operation"
    using assms(1) by (meson in_set_butlastD)
  then have before: "state ?cb1 = CLOSED \<and> failureCount ?cb1 = int (length ?init)
       \<and> failureThreshold ?cb1 = failureThreshold cb"
    using assms(2,3) len by (intro failures_keep_closed) simp_all
  have "always_fails ?op" using assms(1) ne by simp
  then obtain e w2 where op: "?op ?w1 = (Inl e, w2)" by (rule always_failsE)
  have "state (fst (snd (execute ?op ?cb1 ?w1))) = OPEN"
    using before op len by (subst execute_CLOSED_failure_trip [where e = e and ?w1.0 = w2]) simp_all
  then have "state (fst (execute_each (?init @ [?op]) cb w)) = OPEN"
    by (simp only: execute_each_snoc)
  then show ?thesis using split by simp
qed

lemma failures_then_success_closed:
  assumes "\<forall>operation \<in> set operations. always_fails operation"
    and "state cb = CLOSED" and "failureCount cb = 0"
    and "int (length operations) < failureThreshold cb"
    and "always_succeeds good"
  shows "state (fst (execute_each (operations @ [good]) cb w)) = CLOSED
       \<and> failureCount (fst (execute_each (operations @ [good]) cb w)) = 0"
proof -
  let ?cb1 = "fst (execute_each operations cb w)" and ?w1 = "snd (execute_each operations cb w)"
  have before: "state ?cb1 = CLOSED" using assms(1-4) failures_keep_closed by blast
  from assms(5) obtain v w2 where op: "good ?w1 = (Inr v, w2)" by (rule always_succeedsE)
  have "execute good ?cb1 ?w1 = (Inr v, ?cb1\<lparr>failureCount := 0\<rparr>, w2)"
    using before op by (rule execute_CLOSED_success)
  then show ?thesis using before by (simp add: execute_each_snoc)
qed

lemma execute_each_OPEN_elapsed:
  assumes "state cb = OPEN" and "nextAttemptTime cb \<le> fst (Date_now w)" and "operations \<noteq> []"
  shows "execute_each operations cb w =
           execute_each operations (cb\<lparr>state := HALF_OPEN, successCount := 0\<rparr>) (snd (Date_now w))"
  using assms by (cases operations) (simp_all add: execute_OPEN_elapsed)

lemma probes_stay_half_open:
  assumes "\<forall>operation \<in> set operations. always_succeeds operation"
    and "state cb = HALF_OPEN" and "successCount cb = 0"
    and "int (length operations) < halfOpenMaxAttempts cb"
  shows "state (fst (execute_each operations cb w)) = HALF_OPEN
       \<and> successCount (fst (execute_each operations cb w)) = int (length operations)
       \<and> halfOpenMaxAttempts (fst (execute_each operations cb w)) = halfOpenMaxAttempts cb
       \<and> resetTimeout (fst (execute_each operations cb w)) = resetTimeout cb"
proof (cases "operations = []")
  case True
  then show ?thesis using assms by simp
next
  case False
  have "fst (execute_each operations cb w) =
          cb\<lparr>failureCount := 0, successCount := successCount cb + int (length operations)\<rparr>"
    using assms False by (intro execute_each_successes_below) simp_all
  then show ?thesis using assms by simp
qed

lemma probes_close:
  assumes "\<forall>operation \<in> set operations. always_succeeds operation"
    and "state cb = HALF_OPEN" and "successCount cb = 0" and "1 \<le> halfOpenMaxAttempts cb"
    and "int (length operations) = halfOpenMaxAttempts cb"
  shows "state (fst (execute_each operations cb w)) = CLOSED
       \<and> failureCount (fst (execute_each operations cb w)) = 0
       \<and> successCount (fst (execute_each operations cb w)) = 0"
proof -
  from assms(4,5) have ne: "operations \<noteq> []" by auto
  let ?init = "butlast operations" and ?op = "last operations"
  let ?cb1 = "fst (execute_each ?init cb w)" and ?w1 = "snd (execute_each ?init cb w)"
  have split: "operations = ?init @ [?op]" using ne by simp
  have len: "int (length ?init) = halfOpenMaxAttempts cb - 1"
    using ne assms(5) by (cases operations) auto
  have "\<forall>operation \<in> set ?init. always_succeeds operation"
    using assms(1) by (meson in_set_butlastD)
  then have before: "state ?cb1 = HALF_OPEN \<and> successCount ?cb1 = int (length ?init)
       \<and> halfOpenMaxAttempts ?cb1 = halfOpenMaxAttempts cb \<and> resetTimeout ?cb1 = resetTimeout cb"
    using assms(2,3) len by (intro probes_stay_half_open) simp_all
  have "always_succeeds ?op" using assms(1) ne by simp
  then obtain v w2 where op: "?op ?w1 = (Inr v, w2)" by (rule always_succeedsE)
  have "execute ?op ?cb1 ?w1 = (Inr v, ?cb1\<lparr>failureCount := 0, successCount := 0, state := CLOSED\<rparr>, w2)"
    using before op len by (intro execute_HALF_OPEN_success_close) simp_all
  then have "state (fst (execute_each (?init @ [?op]) cb w)) = CLOSED
       \<and> failureCount (fst (execute_each (?init @ [?op]) cb w)) = 0
       \<and> successCount (fst (execute_each (?init @ [?op]) cb w)) = 0"
    by (simp add: execute_each_snoc)
  then show ?thesis using split by simp
qed

lemma probes_then_failure_reopen:
  assumes "\<forall>operation \<in> set operations. always_succeeds operation"
    and "state cb = HALF_OPEN" and "successCount cb = 0"
    and "int (length operations) < halfOpenMaxAttempts cb"
    and "always_fails bad"
  shows "state (fst (execute_each (operations @ [bad]) cb w)) = OPEN
       \<and> successCount (fst (execute_each (operations @ [bad]) cb w)) = 0"
proof -
  let ?cb1 = "fst (execute_each operations cb w)" and ?w1 = "snd (execute_each operations cb w)"
  have before: "state ?cb1 = HALF_OPEN" using assms(1-4) probes_stay_half_open by blast
  from assms(5) obtain e w2 where op: "bad ?w1 = (Inl e, w2)" by (rule always_failsE)
  have "execute bad ?cb1 ?w1 =
      (Inl e,
       ?cb1\<lparr>failureCount := failureCount ?cb1 + 1, lastFailureTime := fst (Date_now w2),
          state := OPEN,
          nextAttemptTime := fst (Date_now (snd (Date_now w2))) + resetTimeout ?cb1,
          successCount := 0\<rparr>,
       snd (Date_now (snd (Date_now w2))))"
    using before op by (rule execute_HALF_OPEN_failure)
  then show ?thesis by (simp add: execute_each_snoc)
qed

subsection \<open>The CLOSED state\<close>

text \<open>
  C1. On a CLOSED breaker a failed call adds one to \<open>failureCount\<close>; when the count
  is then at or above \<open>failureThreshold\<close> the state becomes OPEN and
  \<open>nextAttemptTime\<close> is the clock read by that assignment plus \<open>resetTimeout\<close>,
  otherwise the state stays CLOSED. A successful call sets \<open>failureCount\<close> to 0 and
  leaves the state CLOSED. From a CLOSED breaker with \<open>failureCount\<close> 0 and a
  threshold of at least 1: as many failing calls as the threshold leave it OPEN, fewer
  leave it CLOSED with \<open>failureCount\<close> the number of calls, and one fewer than the
  threshold followed by a success leave it CLOSED with \<open>failureCount\<close> 0.
\<close>

theorem closed_breaker_trips_at_threshold:
  assumes "state cb = CLOSED"
  shows "(operation w = (Inl e, w1) \<and> failureCount cb + 1 < failureThreshold cb \<longrightarrow>
            execute operation cb w =
              (Inl e,
               cb\<lparr>failureCount := failureCount cb + 1, lastFailureTime := fst (Date_now w1)\<rparr>,
               snd (Date_now w1)))
       \<and> (operation w = (Inl e, w1) \<and> failureThreshold cb \<le> failureCount cb + 1 \<longrightarrow>
            execute operation cb w =
              (Inl e,
               cb\<lparr>failureCount := failureCount cb + 1, lastFailureTime := fst (Date_now w1),
                  state := OPEN,
                  nextAttemptTime := fst (Date_now (snd (Date_now w1))) + resetTimeout cb\<rparr>,
               snd (Date_now (snd (Date_now w1)))))
       \<and> (operation w = (Inr v, w1) \<longrightarrow>
            execute operation cb w = (Inr v, cb\<lparr>failureCount := 0\<rparr>, w1))
       \<and> (failureCount cb = 0 \<and> 1 \<le> failureThreshold cb
            \<and> (\<forall>failing \<in> set operations. always_fails failing) \<longrightarrow>
            (int (length operations) = failureThreshold cb \<longrightarrow>
               state (fst (execute_each operations cb w)) = OPEN)
          \<and> (int (length operations) < failureThreshold cb \<longrightarrow>
               state (fst (execute_each operations cb w)) = CLOSED
             \<and> failureCount (fst (execute_each operations cb w)) = int (length operations))
          \<and> (int (length operations) = failureThreshold cb - 1 \<and> always_succeeds good \<longrightarrow>
               state (fst (execute_each (operations @ [good]) cb w)) = CLOSED
             \<and> failureCount (fst (execute_each (operations @ [good]) cb w)) = 0))"
proof (intro conjI impI)
  assume "operation w = (Inl e, w1) \<and> failureCount cb + 1 < failureThreshold cb"
  then show "execute operation cb w =
      (Inl e, cb\<lparr>failureCount := failureCount cb + 1, lastFailureTime := fst (Date_now w1)\<rparr>,
       snd (Date_now w1))"
    using assms by (simp add: execute_CLOSED_failure_below)
next
  assume "operation w = (Inl e, w1) \<and> failureThreshold cb \<le> failureCount cb + 1"
  then show "execute operation cb w =
      (Inl e,
       cb\<lparr>failureCount := failureCount cb + 1, lastFailureTime := fst (Date_now w1),
          state := OPEN,
          nextAttemptTime := fst (Date_now (snd (Date_now w1))) + resetTimeout cb\<rparr>,
       snd (Date_now (snd (Date_now w1))))"
    using assms by (simp add: execute_CLOSED_failure_trip)
next
  assume "operation w = (Inr v, w1)"
  then show "execute operation cb w = (Inr v, cb\<lparr>failureCount := 0\<rparr>, w1)"
    using assms by (simp add: execute_CLOSED_success)
next
  assume start: "failureCount cb = 0 \<and> 1 \<le> failureThreshold cb
      \<and> (\<forall>failing \<in> set operations. always_fails failing)"
    and "int (length operations) = failureThreshold cb"
  then show "state (fst (execute_each operations cb w)) = OPEN"
    using assms by (intro threshold_failures_open) simp_all
next
  assume start: "failureCount cb = 0 \<and> 1 \<le> failureThreshold cb
      \<and> (\<forall>failing \<in> set operations. always_fails failing)"
    and short: "int (length operations) < failureThreshold cb"
  then have "state (fst (execute_each operations cb w)) = CLOSED
       \<and> failureCount (fst (execute_each operations cb w)) = int (length operations)
       \<and> failureThreshold (fst (execute_each operations cb w)) = failureThreshold cb"
    using assms by (intro failures_keep_closed) simp_all
  then show "state (fst (execute_each operations cb w)) = CLOSED"
    and "failureCount (fst (execute_each operations cb w)) = int (length operations)"
    by simp_all
next
  assume start: "failureCount cb = 0 \<and> 1 \<le> failureThreshold cb
      \<and> (\<forall>failing \<in> set operations. always_fails failing)"
    and last: "int (length operations) = failureThreshold cb - 1 \<and> always_succeeds good"
  then have "state (fst (execute_each (operations @ [good]) cb w)) = CLOSED
       \<and> failureCount (fst (execute_each (operations @ [good]) cb w)) = 0"
    using assms by (intro failures_then_success_closed) simp_all
  then show "state (fst (execute_each (operations @ [good]) cb w)) = CLOSED"
    and "failureCount (fst (execute_each (operations @ [good]) cb w)) = 0"
    by simp_all
qed

theorem closed_breaker_trips_at_threshold_witness:
  "state (fst (execute_each (replicate 5 (\<lambda>w. (Inl (Error server_error) :: thrown + payload, w)))
       circuitBreaker (sample_world 1000 0 (\<lambda>k. Inl server_error)))) = OPEN
   \<and> state (fst (execute_each
       (replicate 4 (\<lambda>w. (Inl (Error server_error) :: thrown + payload, w)) @ [\<lambda>w. (Inr ''ok'', w)])
       circuitBreaker (sample_world 1000 0 (\<lambda>k. Inl server_error)))) = CLOSED
   \<and> failureCount (fst (execute_each
       (replicate 4 (\<lambda>w. (Inl (Error server_error) :: thrown + payload, w)) @ [\<lambda>w. (Inr ''ok'', w)])
       circuitBreaker (sample_world 1000 0 (\<lambda>k. Inl server_error)))) = 0
   \<and> execute (\<lambda>w. (Inl (Error server_error) :: thrown + payload, w))
        (circuitBreaker\<lparr>failureCount := 4\<rparr>) (sample_world 1000 0 (\<lambda>k. Inl server_error))
      = (Inl (Error server_error),
         circuitBreaker\<lparr>failureCount := 5, lastFailureTime := 1000, state := OPEN,
                        nextAttemptTime := 61000\<rparr>,
         (sample_world 1000 0 (\<lambda>k. Inl server_error))\<lparr>now_reads := 2\<rparr>)"
  using
    closed_breaker_trips_at_threshold [where cb = "circuitBreaker" and operation = "\<lambda>w. (Inl (Error server_error) :: thrown + payload, w)" and w = "sample_world 1000 0 (\<lambda>k. Inl server_error)"
        and e = "Error server_error" and ?w1.0 = "sample_world 1000 0 (\<lambda>k. Inl server_error)" and v = "''ok''"
        and operations = "replicate 5 (\<lambda>w. (Inl (Error server_error) :: thrown + payload, w))" and good = "\<lambda>w. (Inr ''ok'' :: thrown + payload, w)"]
    closed_breaker_trips_at_threshold [where cb = "circuitBreaker" and operation = "\<lambda>w. (Inl (Error server_error) :: thrown + payload, w)" and w = "sample_world 1000 0 (\<lambda>k. Inl server_error)"
        and e = "Error server_error" and ?w1.0 = "sample_world 1000 0 (\<lambda>k. Inl server_error)" and v = "''ok''"
        and operations = "replicate 4 (\<lambda>w. (Inl (Error server_error) :: thrown + payload, w))" and good = "\<lambda>w. (Inr ''ok'' :: thrown + payload, w)"]
    closed_breaker_trips_at_threshold [where cb = "circuitBreaker\<lparr>failureCount := 4\<rparr>" and operation = "\<lambda>w. (Inl (Error server_error) :: thrown + payload, w)" and w = "sample_world 1000 0 (\<lambda>k. Inl server_error)"
        and e = "Error server_error" and ?w1.0 = "sample_world 1000 0 (\<lambda>k. Inl server_error)" and v = "''ok''"
        and operations = "[]" and good = "\<lambda>w. (Inr ''ok'' :: thrown + payload, w)"]
  by (simp add: circuitBreaker_def new_CircuitBreaker_def always_fails_def always_succeeds_def
      Date_now_def sample_world_simps)

subsection \<open>Probing after the timeout\<close>

text \<open>
  C3. On an OPEN breaker whose \<open>nextAttemptTime\<close> the clock has reached, a call
  proceeds as on the same breaker in state HALF_OPEN with \<open>successCount\<close> 0, and its
  outcome is the operation's. In HALF_OPEN a success adds one to \<open>successCount\<close>, and
  the success that brings it to \<open>halfOpenMaxAttempts\<close> closes the breaker with both
  counters 0; a failure reopens it at once, with \<open>nextAttemptTime\<close> the clock read by
  that assignment plus \<open>resetTimeout\<close> and \<open>successCount\<close> 0. From the OPEN
  breaker, with \<open>halfOpenMaxAttempts\<close> at least 1: that many successful calls leave it
  CLOSED with both counters 0, fewer leave it HALF_OPEN with \<open>successCount\<close> their
  number, and fewer followed by one failing call leave it OPEN with \<open>successCount\<close> 0.
\<close>

theorem half_open_probes_close_or_reopen:
  "(state cb = OPEN \<and> nextAttemptTime cb \<le> fst (Date_now w) \<longrightarrow>
      execute operation cb w =
        execute operation (cb\<lparr>state := HALF_OPEN, successCount := 0\<rparr>) (snd (Date_now w))
    \<and> fst (execute operation cb w) = fst (operation (snd (Date_now w))))
 \<and> (state cb = HALF_OPEN \<and> operation w = (Inr v, w1)
      \<and> successCount cb + 1 < halfOpenMaxAttempts cb \<longrightarrow>
      execute operation cb w =
        (Inr v, cb\<lparr>failureCount := 0, successCount := successCount cb + 1\<rparr>, w1))
 \<and> (state cb = HALF_OPEN \<and> operation w = (Inr v, w1)
      \<and> halfOpenMaxAttempts cb \<le> successCount cb + 1 \<longrightarrow>
      execute operation cb w =
        (Inr v, cb\<lparr>failureCount := 0, successCount := 0, state := CLOSED\<rparr>, w1))
 \<and> (state cb = HALF_OPEN \<and> operation w = (Inl e, w1) \<longrightarrow>
      execute operation cb w =
        (Inl e,
         cb\<lparr>failureCount := failureCount cb + 1, lastFailureTime := fst (Date_now w1),
            state := OPEN,
            nextAttemptTime := fst (Date_now (snd (Date_now w1))) + resetTimeout cb,
            successCount := 0\<rparr>,
         snd (Date_now (snd (Date_now w1)))))
 \<and> (state cb = OPEN \<and> nextAttemptTime cb \<le> fst (Date_now w) \<and> 1 \<le> halfOpenMaxAttempts cb
      \<and> (\<forall>probe \<in> set operations. always_succeeds probe) \<longrightarrow>
      (int (length operations) = halfOpenMaxAttempts cb \<longrightarrow>
         state (fst (execute_each operations cb w)) = CLOSED
       \<and> failureCount (fst (execute_each operations cb w)) = 0
       \<and> successCount (fst (execute_each operations cb w)) = 0)
    \<and> (operations \<noteq> [] \<and> int (length operations) < halfOpenMaxAttempts cb \<longrightarrow>
         state (fst (execute_each operations cb w)) = HALF_OPEN
       \<and> successCount (fst (execute_each operations cb w)) = int (length operations))
    \<and> (int (length operations) < halfOpenMaxAttempts cb \<and> always_fails bad \<longrightarrow>
         state (fst (execute_each (operations @ [bad]) cb w)) = OPEN
       \<and> successCount (fst (execute_each (operations @ [bad]) cb w)) = 0))"
proof -
  let ?half = "cb\<lparr>state := HALF_OPEN, successCount := 0\<rparr>" and ?gate = "snd (Date_now w)"
  have gate: "execute operation cb w = execute operation ?half ?gate
      \<and> fst (execute operation cb w) = fst (operation ?gate)"
    if "state cb = OPEN \<and> nextAttemptTime cb \<le> fst (Date_now w)"
  proof -
    have "execute operation cb w = attempt_operation operation ?half ?gate"
      using that by (simp add: execute_probe)
    moreover have "fst (attempt_operation operation ?half ?gate) = fst (operation ?gate)"
      by (simp add: attempt_operation_def split: prod.splits sum.splits)
    ultimately show ?thesis using that by (simp add: execute_OPEN_elapsed)
  qed
  have below: "execute operation cb w =
      (Inr v, cb\<lparr>failureCount := 0, successCount := successCount cb + 1\<rparr>, w1)"
    if "state cb = HALF_OPEN \<and> operation w = (Inr v, w1)
      \<and> successCount cb + 1 < halfOpenMaxAttempts cb"
    using that by (simp add: execute_HALF_OPEN_success_below)
  have close: "execute operation cb w =
      (Inr v, cb\<lparr>failureCount := 0, successCount := 0, state := CLOSED\<rparr>, w1)"
    if "state cb = HALF_OPEN \<and> operation w = (Inr v, w1)
      \<and> halfOpenMaxAttempts cb \<le> successCount cb + 1"
    using that by (simp add: execute_HALF_OPEN_success_close)
  have reopen: "execute operation cb w =
        (Inl e,
         cb\<lparr>failureCount := failureCount cb + 1, lastFailureTime := fst (Date_now w1),
            state := OPEN,
            nextAttemptTime := fst (Date_now (snd (Date_now w1))) + resetTimeout cb,
            successCount := 0\<rparr>,
         snd (Date_now (snd (Date_now w1))))"
    if "state cb = HALF_OPEN \<and> operation w = (Inl e, w1)"
    using that by (simp add: execute_HALF_OPEN_failure)
  have sequences:
    "(int (length operations) = halfOpenMaxAttempts cb \<longrightarrow>
         state (fst (execute_each operations cb w)) = CLOSED
       \<and> failureCount (fst (execute_each operations cb w)) = 0
       \<and> successCount (fst (execute_each operations cb w)) = 0)
    \<and> (operations \<noteq> [] \<and> int (length operations) < halfOpenMaxAttempts cb \<longrightarrow>
         state (fst (execute_each operations cb w)) = HALF_OPEN
       \<and> successCount (fst (execute_each operations cb w)) = int (length operations))
    \<and> (int (length operations) < halfOpenMaxAttempts cb \<and> always_fails bad \<longrightarrow>
         state (fst (execute_each (operations @ [bad]) cb w)) = OPEN
       \<and> successCount (fst (execute_each (operations @ [bad]) cb w)) = 0)"
    if start: "state cb = OPEN \<and> nextAttemptTime cb \<le> fst (Date_now w)
      \<and> 1 \<le> halfOpenMaxAttempts cb \<and> (\<forall>probe \<in> set operations. always_succeeds probe)"
  proof (intro conjI impI)
    assume len: "int (length operations) = halfOpenMaxAttempts cb"
    with start have ne: "operations \<noteq> []" by auto
    have "state (fst (execute_each operations ?half ?gate)) = CLOSED
       \<and> failureCount (fst (execute_each operations ?half ?gate)) = 0
       \<and> successCount (fst (execute_each operations ?half ?gate)) = 0"
      using start len by (intro probes_close) simp_all
    then have all: "state (fst (execute_each operations cb w)) = CLOSED
       \<and> failureCount (fst (execute_each operations cb w)) = 0
       \<and> successCount (fst (execute_each operations cb w)) = 0"
      using start ne by (simp add: execute_each_OPEN_elapsed)
    from all show "state (fst (execute_each operations cb w)) = CLOSED" by simp
    from all show "failureCount (fst (execute_each operations cb w)) = 0" by simp
    from all show "successCount (fst (execute_each operations cb w)) = 0" by simp
  next
    assume some: "operations \<noteq> [] \<and> int (length operations) < halfOpenMaxAttempts cb"
    have "state (fst (execute_each operations ?half ?gate)) = HALF_OPEN
       \<and> successCount (fst (execute_each operations ?half ?gate)) = int (length operations)
       \<and> halfOpenMaxAttempts (fst (execute_each operations ?half ?gate)) = halfOpenMaxAttempts ?half
       \<and> resetTimeout (fst (execute_each operations ?half ?gate)) = resetTimeout ?half"
      using start some by (intro probes_stay_half_open) simp_all
    then have both: "state (fst (execute_each operations cb w)) = HALF_OPEN
       \<and> successCount (fst (execute_each operations cb w)) = int (length operations)"
      using start some by (simp add: execute_each_OPEN_elapsed)
    from both show "state (fst (execute_each operations cb w)) = HALF_OPEN" by simp
    from both show "successCount (fst (execute_each operations cb w)) = int (length operations)"
      by simp
  next
    assume fail: "int (length operations) < halfOpenMaxAttempts cb \<and> always_fails bad"
    have "state (fst (execute_each (operations @ [bad]) ?half ?gate)) = OPEN
       \<and> successCount (fst (execute_each (operations @ [bad]) ?half ?gate)) = 0"
      using start fail by (intro probes_then_failure_reopen) simp_all
    then have both: "state (fst (execute_each (operations @ [bad]) cb w)) = OPEN
       \<and> successCount (fst (execute_each (operations @ [bad]) cb w)) = 0"
      using start by (simp add: execute_each_OPEN_elapsed)
    from both show "state (fst (execute_each (operations @ [bad]) cb w)) = OPEN" by simp
    from both show "successCount (fst (execute_each (operations @ [bad]) cb w)) = 0" by simp
  qed
  from gate below close reopen sequences show ?thesis by blast
qed

theorem half_open_probes_close_or_reopen_witness:
  "state (fst (execute_each (replicate 3 (\<lambda>w. (Inr ''ok'' :: thrown + payload, w)))
       (circuitBreaker\<lparr>state := OPEN, failureCount := 5, nextAttemptTime := 61000\<rparr>)
       (sample_world 61000 0 (\<lambda>k. Inr ''ok'')))) = CLOSED
   \<and> failureCount (fst (execute_each (replicate 3 (\<lambda>w. (Inr ''ok'' :: thrown + payload, w)))
       (circuitBreaker\<lparr>state := OPEN, failureCount := 5, nextAttemptTime := 61000\<rparr>)
       (sample_world 61000 0 (\<lambda>k. Inr ''ok'')))) = 0
   \<and> successCount (fst (execute_each (replicate 3 (\<lambda>w. (Inr ''ok'' :: thrown + payload, w)))
       (circuitBreaker\<lparr>state := OPEN, failureCount := 5, nextAttemptTime := 61000\<rparr>)
       (sample_world 61000 0 (\<lambda>k. Inr ''ok'')))) = 0
   \<and> state (fst (execute_each (replicate 2 (\<lambda>w. (Inr ''ok'' :: thrown + payload, w)))
       (circuitBreaker\<lparr>state := OPEN, failureCount := 5, nextAttemptTime := 61000\<rparr>)
       (sample_world 61000 0 (\<lambda>k. Inr ''ok'')))) = HALF_OPEN
   \<and> successCount (fst (execute_each (replicate 2 (\<lambda>w. (Inr ''ok'' :: thrown + payload, w)))
       (circuitBreaker\<lparr>state := OPEN, failureCount := 5, nextAttemptTime := 61000\<rparr>)
       (sample_world 61000 0 (\<lambda>k. Inr ''ok'')))) = 2
   \<and> state (fst (execute_each
       (replicate 2 (\<lambda>w. (Inr ''ok'' :: thrown + payload, w)) @ [\<lambda>w. (Inl (Error timed_out), w)])
       (circuitBreaker\<lparr>state := OPEN, failureCount := 5, nextAttemptTime := 61000\<rparr>)
       (sample_world 61000 0 (\<lambda>k. Inr ''ok'')))) = OPEN
   \<and> successCount (fst (execute_each
       (replicate 2 (\<lambda>w. (Inr ''ok'' :: thrown + payload, w)) @ [\<lambda>w. (Inl (Error timed_out), w)])
       (circuitBreaker\<lparr>state := OPEN, failureCount := 5, nextAttemptTime := 61000\<rparr>)
       (sample_world 61000 0 (\<lambda>k. Inr ''ok'')))) = 0
   \<and> execute (\<lambda>w. (Inl (Error timed_out) :: thrown + payload, w))
        (circuitBreaker\<lparr>state := HALF_OPEN, successCount := 2\<rparr>)
        (sample_world 61000 0 (\<lambda>k. Inr ''ok''))
      = (Inl (Error timed_out),
         circuitBreaker\<lparr>failureCount := 1, lastFailureTime := 61000, state := OPEN,
                        nextAttemptTime := 121000, successCount := 0\<rparr>,
         (sample_world 61000 0 (\<lambda>k. Inr ''ok''))\<lparr>now_reads := 2\<rparr>)"
  using
    half_open_probes_close_or_reopen [where cb = "circuitBreaker\<lparr>state := OPEN, failureCount := 5, nextAttemptTime := 61000\<rparr>"
        and operation = "\<lambda>w. (Inr ''ok'' :: thrown + payload, w)"
        and w = "sample_world 61000 0 (\<lambda>k. Inr ''ok'')"
        and e = "Error timed_out" and ?w1.0 = "sample_world 61000 0 (\<lambda>k. Inr ''ok'')"
        and v = "''ok''"
        and operations = "replicate 3 (\<lambda>w. (Inr ''ok'' :: thrown + payload, w))"
        and bad = "\<lambda>w. (Inl (Error timed_out) :: thrown + payload, w)"]
    half_open_probes_close_or_reopen [where cb = "circuitBreaker\<lparr>state := OPEN, failureCount := 5, nextAttemptTime := 61000\<rparr>"
        and operation = "\<lambda>w. (Inr ''ok'' :: thrown + payload, w)"
        and w = "sample_world 61000 0 (\<lambda>k. Inr ''ok'')"
        and e = "Error timed_out" and ?w1.0 = "sample_world 61000 0 (\<lambda>k. Inr ''ok'')"
        and v = "''ok''"
        and operations = "replicate 2 (\<lambda>w. (Inr ''ok'' :: thrown + payload, w))"
        and bad = "\<lambda>w. (Inl (Error timed_out) :: thrown + payload, w)"]
    half_open_probes_close_or_reopen [where cb = "circuitBreaker\<lparr>state := HALF_OPEN, successCount := 2\<rparr>"
        and operation = "\<lambda>w. (Inl (Error timed_out) :: thrown + payload, w)"
        and w = "sample_world 61000 0 (\<lambda>k. Inr ''ok'')"
        and e = "Error timed_out" and ?w1.0 = "sample_world 61000 0 (\<lambda>k. Inr ''ok'')"
        and v = "''ok''"
        and operations = "[]"
        and bad = "\<lambda>w. (Inl (Error timed_out) :: thrown + payload, w)"]
  by (simp add: circuitBreaker_def new_CircuitBreaker_def always_fails_def always_succeeds_def
      Date_now_def sample_world_simps)

subsection \<open>The retry loop on the downstream call\<close>

lemma retry_loop_exit:
  assumes "maxRetries config < int attempt"
  shows "retry_loop operation config attempt lastError w =
           (case lastError of None \<Rightarrow> (Inl Undefined, w) | Some error \<Rightarrow> (Inl (Error error), w))"
  using assms by (subst retry_loop.simps) simp

lemma retry_loop_retry:
  assumes "int attempt < maxRetries config" and "operation w = (Inl error, w1)"
    and "retryable error"
  shows "retry_loop operation config attempt lastError w =
           retry_loop operation config (Suc attempt) (Some error)
             (setTimeout (delay config attempt (fst (Math_random w1))) (snd (Math_random w1)))"
  using assms by (subst retry_loop.simps) (simp add: retryable_def case_prod_beta Let_def)

lemma retry_loop_last:
  assumes "int attempt = maxRetries config" and "operation w = (Inl error, w1)"
    and "retryable error"
  shows "retry_loop operation config attempt lastError w = (Inl (Error error), w1)"
proof -
  have "retry_loop operation config attempt lastError w =
          retry_loop operation config (Suc attempt) (Some error) w1"
    using assms by (subst retry_loop.simps) (simp add: retryable_def)
  also have "\<dots> = (Inl (Error error), w1)"
    using assms(1) by (simp add: retry_loop_exit)
  finally show ?thesis .
qed

lemma downstream_failure:
  "op_src w (op_calls w) = Inl error \<Longrightarrow>
   downstream w = (Inl error, w\<lparr>op_calls := Suc (op_calls w)\<rparr>)"
  by (simp add: downstream_def)

lemma downstream_answer:
  "op_src w (op_calls w) = Inr result \<Longrightarrow>
   downstream w = (Inr result, w\<lparr>op_calls := Suc (op_calls w)\<rparr>)"
  by (simp add: downstream_def)

lemma retry_loop_prefix:
  assumes "\<forall>i<k. \<exists>error. op_src w (op_calls w + i) = Inl error \<and> retryable error"
    and "int (attempt + k) \<le> maxRetries config"
  shows "retry_loop downstream config attempt lastError w =
           retry_loop downstream config (attempt + k)
             (if k = 0 then lastError else Some (projl (op_src w (op_calls w + k - 1))))
             (w\<lparr>op_calls := op_calls w + k, rand_reads := rand_reads w + k,
                slept := slept w @
                  map (\<lambda>i. delay config (attempt + i) (rand_src w (rand_reads w + i))) [0..<k]\<rparr>)"
  using assms
proof (induction k)
  case 0
  then show ?case by simp
next
  case (Suc k)
  let ?wk = "w\<lparr>op_calls := op_calls w + k, rand_reads := rand_reads w + k,
                slept := slept w @
                  map (\<lambda>i. delay config (attempt + i) (rand_src w (rand_reads w + i))) [0..<k]\<rparr>"
  let ?le = "if k = 0 then lastError else Some (projl (op_src w (op_calls w + k - 1)))"
  from Suc.prems obtain error where
    err: "op_src w (op_calls w + k) = Inl error" and retr: "retryable error" by blast
  have "retry_loop downstream config attempt lastError w =
          retry_loop downstream config (attempt + k) ?le ?wk"
    using Suc.prems by (intro Suc.IH) simp_all
  also have "\<dots> = retry_loop downstream config (Suc (attempt + k)) (Some error)
      (setTimeout (delay config (attempt + k)
          (fst (Math_random (?wk\<lparr>op_calls := Suc (op_calls ?wk)\<rparr>))))
        (snd (Math_random (?wk\<lparr>op_calls := Suc (op_calls ?wk)\<rparr>))))"
  proof (rule retry_loop_retry)
    show "int (attempt + k) < maxRetries config" using Suc.prems(2) by simp
    show "downstream ?wk = (Inl error, ?wk\<lparr>op_calls := Suc (op_calls ?wk)\<rparr>)"
      using err by (intro downstream_failure) simp
    show "retryable error" by (rule retr)
  qed
  finally show ?case
    using err by (simp add: Math_random_def setTimeout_def)
qed

lemma retry_loop_frame:
  "op_calls w \<le> op_calls (snd (retry_loop downstream config attempt lastError w))
   \<and> op_calls (snd (retry_loop downstream config attempt lastError w))
       \<le> op_calls w + nat (maxRetries config + 1 - int attempt)
   \<and> (\<exists>rest. slept (snd (retry_loop downstream config attempt lastError w)) = slept w @ rest)"
proof (induction "nat (maxRetries config + 1 - int attempt)" arbitrary: attempt lastError w)
  case 0
  then have "maxRetries config < int attempt" by simp
  then show ?case by (simp add: retry_loop_exit split: option.splits)
next
  case (Suc n)
  then have le: "int attempt \<le> maxRetries config" by simp
  let ?w1 = "w\<lparr>op_calls := Suc (op_calls w)\<rparr>"
  show ?case
  proof (cases "op_src w (op_calls w)")
    case (Inr result)
    then have "retry_loop downstream config attempt lastError w = (Inr result, ?w1)"
      using le by (intro retry_loop_result downstream_answer)
    then show ?thesis using le by simp
  next
    case (Inl error)
    then have down: "downstream w = (Inl error, ?w1)" by (rule downstream_failure)
    show ?thesis
    proof (cases "retryable error")
      case False
      then have "is_client_error error \<or> is_circuit_open error" by (auto simp: retryable_def)
      with le down have "retry_loop downstream config attempt lastError w = (Inl (Error error), ?w1)"
        by (intro retry_loop_stop)
      then show ?thesis using le by simp
    next
      case True
      show ?thesis
      proof (cases "int attempt < maxRetries config")
        case False
        with le have "int attempt = maxRetries config" by simp
        then have "retry_loop downstream config attempt lastError w = (Inl (Error error), ?w1)"
          using down True by (rule retry_loop_last)
        then show ?thesis using le by simp
      next
        case less: True
        let ?w3 = "setTimeout (delay config attempt (fst (Math_random ?w1))) (snd (Math_random ?w1))"
        have step: "retry_loop downstream config attempt lastError w =
            retry_loop downstream config (Suc attempt) (Some error) ?w3"
          using less down True by (rule retry_loop_retry)
        have n: "n = nat (maxRetries config + 1 - int (Suc attempt))" using Suc.hyps(2) by simp
        have ih: "op_calls ?w3 \<le> op_calls (snd (retry_loop downstream config (Suc attempt) (Some error) ?w3))
           \<and> op_calls (snd (retry_loop downstream config (Suc attempt) (Some error) ?w3))
               \<le> op_calls ?w3 + nat (maxRetries config + 1 - int (Suc attempt))
           \<and> (\<exists>rest. slept (snd (retry_loop downstream config (Suc attempt) (Some error) ?w3))
                 = slept ?w3 @ rest)"
          using n by (rule Suc.hyps(1))
        have w3: "op_calls ?w3 = Suc (op_calls w)"
          "slept ?w3 = slept w @ [delay config attempt (fst (Math_random ?w1))]"
          by (simp_all add: setTimeout_def Math_random_def)
        from ih w3 less show ?thesis
          unfolding step by auto
      qed
    qed
  qed
qed

lemma retry_loop_exhausted:
  assumes "0 \<le> maxRetries config"
    and "\<forall>i \<le> nat (maxRetries config). \<exists>error. op_src w (op_calls w + i) = Inl error \<and> retryable error"
  shows "retry_loop downstream config 0 None w =
           (Inl (Error (projl (op_src w (op_calls w + nat (maxRetries config))))),
            w\<lparr>op_calls := op_calls w + nat (maxRetries config) + 1,
               rand_reads := rand_reads w + nat (maxRetries config),
               slept := slept w @
                 map (\<lambda>i. delay config i (rand_src w (rand_reads w + i)))
                   [0..<nat (maxRetries config)]\<rparr>)"
proof -
  let ?m = "nat (maxRetries config)"
  let ?wm = "w\<lparr>op_calls := op_calls w + ?m, rand_reads := rand_reads w + ?m,
                slept := slept w @
                  map (\<lambda>i. delay config (0 + i) (rand_src w (rand_reads w + i))) [0..<?m]\<rparr>"
  let ?le = "if ?m = 0 then None else Some (projl (op_src w (op_calls w + ?m - 1)))"
  from assms(2) obtain error where
    err: "op_src w (op_calls w + ?m) = Inl error" and retr: "retryable error" by blast
  have "retry_loop downstream config 0 None w = retry_loop downstream config (0 + ?m) ?le ?wm"
    using assms by (intro retry_loop_prefix) simp_all
  also have "\<dots> = (Inl (Error error), ?wm\<lparr>op_calls := Suc (op_calls ?wm)\<rparr>)"
  proof (rule retry_loop_last)
    show "int (0 + ?m) = maxRetries config" using assms(1) by simp
    show "downstream ?wm = (Inl error, ?wm\<lparr>op_calls := Suc (op_calls ?wm)\<rparr>)"
      using err by (intro downstream_failure) simp
    show "retryable error" by (rule retr)
  qed
  finally show ?thesis using err by simp
qed

lemma is_circuit_open_signal: "is_circuit_open circuit_open_error"
  by (simp add: is_circuit_open_def circuit_open_error_def)

lemma retryable_server_error: "retryable server_error"
  by (simp add: retryable_def is_client_error_def is_circuit_open_def server_error_def)

lemma baseDelay_nonneg:
  assumes "0 \<le> initialDelay config" and "0 \<le> maxDelay config" and "0 \<le> backoffMultiplier config"
  shows "0 \<le> baseDelay config attempt"
  using assms by (simp add: baseDelay_def)

lemma jittered_within:
  fixes b u :: real
  assumes "0 \<le> b" and "- 1 \<le> u" and "u \<le> 1"
  shows "b * (7 / 10) \<le> max 0 (b + b * (3 / 10) * u)"
    and "max 0 (b + b * (3 / 10) * u) \<le> b * (13 / 10)"
proof -
  define x where "x = b * u"
  have eq: "b + b * (3 / 10) * u = b + (3 / 10) * x" by (simp add: x_def)
  have "b * u \<le> b * 1" using assms by (intro mult_left_mono) simp_all
  then have up: "x \<le> b" by (simp add: x_def)
  have "b * (- 1) \<le> b * u" using assms by (intro mult_left_mono) simp_all
  then have low: "- b \<le> x" by (simp add: x_def)
  from low show "b * (7 / 10) \<le> max 0 (b + b * (3 / 10) * u)" unfolding eq by linarith
  from up assms(1) show "max 0 (b + b * (3 / 10) * u) \<le> b * (13 / 10)" unfolding eq by linarith
qed

lemma retry_sleeps_prefix:
  assumes "int k \<le> maxRetries config"
    and "\<forall>i<k. \<exists>error. op_src w (op_calls w + i) = Inl error \<and> retryable error"
  shows "\<exists>rest. slept (snd (retryWithBackoff downstream config w)) =
           slept w @ map (\<lambda>i. delay config i (rand_src w (rand_reads w + i))) [0..<k] @ rest"
proof -
  let ?wk = "w\<lparr>op_calls := op_calls w + k, rand_reads := rand_reads w + k,
                slept := slept w @
                  map (\<lambda>i. delay config (0 + i) (rand_src w (rand_reads w + i))) [0..<k]\<rparr>"
  let ?le = "if k = 0 then None else Some (projl (op_src w (op_calls w + k - 1)))"
  have "retry_loop downstream config 0 None w = retry_loop downstream config (0 + k) ?le ?wk"
    using assms by (intro retry_loop_prefix) simp_all
  moreover obtain rest where
    "slept (snd (retry_loop downstream config (0 + k) ?le ?wk)) = slept ?wk @ rest"
    using retry_loop_frame [of ?wk config "0 + k" ?le] by blast
  ultimately show ?thesis by (simp add: retryWithBackoff_def)
qed

subsection \<open>How often the retry engine calls\<close>

text \<open>
  C4. With \<open>maxRetries\<close> at least 0, \<^verbatim>\<open>retryWithBackoff\<close> sends at most
  \<open>maxRetries + 1\<close> requests downstream. When the first request fails with a client
  error (a response status from 400 up to, not including, 500) or with an error carrying
  the breaker's message, that one request is the only one and the error is rethrown as
  it is. When every request fails with an error of neither kind, exactly
  \<open>maxRetries + 1\<close> requests are sent and the error of the last one is rethrown as
  it is.
\<close>

theorem retry_attempts_bounded:
  assumes "0 \<le> maxRetries config"
  shows "op_calls w \<le> op_calls (snd (retryWithBackoff downstream config w))
       \<and> int (op_calls (snd (retryWithBackoff downstream config w))) - int (op_calls w)
           \<le> maxRetries config + 1
       \<and> (op_src w (op_calls w) = Inl e \<and> (is_client_error e \<or> is_circuit_open e) \<longrightarrow>
            retryWithBackoff downstream config w = (Inl (Error e), w\<lparr>op_calls := Suc (op_calls w)\<rparr>))
       \<and> ((\<forall>i \<le> nat (maxRetries config).
              \<exists>error. op_src w (op_calls w + i) = Inl error \<and> retryable error) \<longrightarrow>
            fst (retryWithBackoff downstream config w)
              = Inl (Error (projl (op_src w (op_calls w + nat (maxRetries config)))))
          \<and> int (op_calls (snd (retryWithBackoff downstream config w))) - int (op_calls w)
              = maxRetries config + 1)"
proof -
  have frame: "op_calls w \<le> op_calls (snd (retry_loop downstream config 0 None w))
       \<and> op_calls (snd (retry_loop downstream config 0 None w))
           \<le> op_calls w + nat (maxRetries config + 1 - int 0)"
    using retry_loop_frame [of w config 0 None] by simp
  then have bound: "op_calls w \<le> op_calls (snd (retryWithBackoff downstream config w))
       \<and> int (op_calls (snd (retryWithBackoff downstream config w))) - int (op_calls w)
           \<le> maxRetries config + 1"
    using assms unfolding retryWithBackoff_def by linarith
  have stop: "retryWithBackoff downstream config w = (Inl (Error e), w\<lparr>op_calls := Suc (op_calls w)\<rparr>)"
    if "op_src w (op_calls w) = Inl e \<and> (is_client_error e \<or> is_circuit_open e)"
    unfolding retryWithBackoff_def using assms that
    by (intro retry_loop_stop downstream_failure) simp_all
  have exhausted: "fst (retryWithBackoff downstream config w)
              = Inl (Error (projl (op_src w (op_calls w + nat (maxRetries config)))))
          \<and> int (op_calls (snd (retryWithBackoff downstream config w))) - int (op_calls w)
              = maxRetries config + 1"
    if "\<forall>i \<le> nat (maxRetries config).
              \<exists>error. op_src w (op_calls w + i) = Inl error \<and> retryable error"
    using assms that by (simp add: retryWithBackoff_def retry_loop_exhausted)
  from bound stop exhausted show ?thesis by blast
qed

theorem retry_attempts_bounded_witness:
  "0 \<le> maxRetries default_config
   \<and> retryWithBackoff downstream default_config (sample_world 1000 0 (\<lambda>k. Inl not_found))
       = (Inl (Error not_found), (sample_world 1000 0 (\<lambda>k. Inl not_found))\<lparr>op_calls := 1\<rparr>)
   \<and> fst (retryWithBackoff downstream default_config (sample_world 1000 0 (\<lambda>k. Inl server_error)))
       = Inl (Error server_error)
   \<and> op_calls (snd (retryWithBackoff downstream default_config
        (sample_world 1000 0 (\<lambda>k. Inl server_error)))) = 4"
  using
    retry_attempts_bounded [where config = default_config and w = "sample_world 1000 0 (\<lambda>k. Inl not_found)"
        and e = not_found]
    retry_attempts_bounded [where config = default_config and w = "sample_world 1000 0 (\<lambda>k. Inl server_error)"
        and e = server_error]
  by (simp add: default_config_def sample_world_simps is_client_error_not_found
      retryable_server_error)

subsection \<open>The delays between attempts\<close>

text \<open>
  C5. When the first \<open>k\<close> attempts fail with errors that are retried and
  \<open>k\<close> is at most \<open>maxRetries\<close>, the first \<open>k\<close> delays awaited are
  \<open>delay config i r\<close> for the attempt index \<open>i\<close> and the \<open>i\<close>-th draw
  \<open>r\<close> of \<^verbatim>\<open>Math.random()\<close>, which is \<open>max 0 (b + b * jitterFactor * u)\<close> with
  \<open>b = min (initialDelay * backoffMultiplier ^ i) maxDelay\<close> and \<open>u = r * 2 - 1\<close>.
  With \<open>maxRetries = 3\<close>, \<open>initialDelay = 1000\<close>, \<open>maxDelay = 10000\<close>,
  \<open>backoffMultiplier = 2\<close> and \<open>jitterFactor = 0\<close>, a call whose four attempts all
  fail awaits exactly 1000, 2000 and 4000. With \<open>jitterFactor = 3 / 10\<close>, delays and
  multiplier not negative and a draw \<open>r\<close> between 0 and 1, \<open>u\<close> lies between -1 and
  1 and the delay between \<open>b * 0.7\<close> and \<open>b * 1.3\<close>; no delay is ever negative.
\<close>

theorem retry_delays_backoff_jitter:
  "(int k \<le> maxRetries config
      \<and> (\<forall>i<k. \<exists>error. op_src w (op_calls w + i) = Inl error \<and> retryable error) \<longrightarrow>
      (\<exists>rest. slept (snd (retryWithBackoff downstream config w)) =
         slept w @ map (\<lambda>i. delay config i (rand_src w (rand_reads w + i))) [0..<k] @ rest))
 \<and> delay config i r =
      max 0 (min (initialDelay config * backoffMultiplier config ^ i) (maxDelay config)
             + min (initialDelay config * backoffMultiplier config ^ i) (maxDelay config)
               * jitterFactor config * (r * 2 - 1))
 \<and> ((\<forall>i<4. \<exists>error. op_src w (op_calls w + i) = Inl error \<and> retryable error) \<longrightarrow>
      slept (snd (retryWithBackoff downstream
         \<lparr>maxRetries = 3, initialDelay = 1000, maxDelay = 10000, backoffMultiplier = 2,
          jitterFactor = 0\<rparr> w))
        = slept w @ [1000, 2000, 4000])
 \<and> (jitterFactor config = 3 / 10 \<and> 0 \<le> initialDelay config \<and> 0 \<le> maxDelay config
      \<and> 0 \<le> backoffMultiplier config \<and> 0 \<le> r \<and> r \<le> 1 \<longrightarrow>
      - 1 \<le> r * 2 - 1 \<and> r * 2 - 1 \<le> 1
    \<and> baseDelay config i * (7 / 10) \<le> delay config i r
    \<and> delay config i r \<le> baseDelay config i * (13 / 10))
 \<and> 0 \<le> delay config i r"
proof -
  have sleeps: "\<exists>rest. slept (snd (retryWithBackoff downstream config w)) =
         slept w @ map (\<lambda>i. delay config i (rand_src w (rand_reads w + i))) [0..<k] @ rest"
    if "int k \<le> maxRetries config
      \<and> (\<forall>i<k. \<exists>error. op_src w (op_calls w + i) = Inl error \<and> retryable error)"
    using that by (intro retry_sleeps_prefix) simp_all
  have formula: "delay config i r =
      max 0 (min (initialDelay config * backoffMultiplier config ^ i) (maxDelay config)
             + min (initialDelay config * backoffMultiplier config ^ i) (maxDelay config)
               * jitterFactor config * (r * 2 - 1))"
    by (simp add: delay_def jitter_def baseDelay_def)
  let ?plain = "\<lparr>maxRetries = 3, initialDelay = 1000, maxDelay = 10000, backoffMultiplier = 2,
          jitterFactor = 0\<rparr>"
  have plain: "slept (snd (retryWithBackoff downstream ?plain w)) = slept w @ [1000, 2000, 4000]"
    if fail: "\<forall>i<4. \<exists>error. op_src w (op_calls w + i) = Inl error \<and> retryable error"
  proof -
    have "\<forall>i \<le> nat (maxRetries ?plain).
        \<exists>error. op_src w (op_calls w + i) = Inl error \<and> retryable error"
      using fail by simp
    then have "slept (snd (retry_loop downstream ?plain 0 None w)) =
        slept w @ map (\<lambda>i. delay ?plain i (rand_src w (rand_reads w + i))) [0..<nat (maxRetries ?plain)]"
      by (subst retry_loop_exhausted) simp_all
    also have "[0..<nat (maxRetries ?plain)] = [0, 1, 2]"
      by (simp add: upt_rec)
    finally show ?thesis
      by (simp add: retryWithBackoff_def delay_def jitter_def baseDelay_def)
  qed
  have within: "- 1 \<le> r * 2 - 1 \<and> r * 2 - 1 \<le> 1
    \<and> baseDelay config i * (7 / 10) \<le> delay config i r
    \<and> delay config i r \<le> baseDelay config i * (13 / 10)"
    if wf: "jitterFactor config = 3 / 10 \<and> 0 \<le> initialDelay config \<and> 0 \<le> maxDelay config
      \<and> 0 \<le> backoffMultiplier config \<and> 0 \<le> r \<and> r \<le> 1"
  proof -
    from wf have b: "0 \<le> baseDelay config i" by (intro baseDelay_nonneg) simp_all
    from wf have u: "- 1 \<le> r * 2 - 1" "r * 2 - 1 \<le> 1" by simp_all
    have d: "delay config i r = max 0 (baseDelay config i + baseDelay config i * (3 / 10) * (r * 2 - 1))"
      using wf by (simp only: delay_def jitter_def)
    show ?thesis
      using jittered_within [OF b u] u unfolding d by simp
  qed
  have nonneg: "0 \<le> delay config i r" by (simp add: delay_def)
  from sleeps formula plain within nonneg show ?thesis by blast
qed

theorem retry_delays_backoff_jitter_witness:
  "slept (snd (retryWithBackoff downstream (default_config\<lparr>jitterFactor := 0\<rparr>)
       (sample_world 1000 (1 / 4) (\<lambda>k. Inl server_error)))) = [1000, 2000, 4000]
   \<and> (\<exists>rest. slept (snd (retryWithBackoff downstream default_config
       (sample_world 1000 0 (\<lambda>k. Inl server_error)))) = [700, 1400] @ rest)
   \<and> 700 \<le> delay default_config 0 0 \<and> delay default_config 0 0 \<le> 1300"
  using
    retry_delays_backoff_jitter [where config = "default_config\<lparr>jitterFactor := 0\<rparr>" and k = 0
        and w = "sample_world 1000 (1 / 4) (\<lambda>k. Inl server_error)" and i = 0 and r = 0]
    retry_delays_backoff_jitter [where config = default_config and k = 2
        and w = "sample_world 1000 0 (\<lambda>k. Inl server_error)" and i = 0 and r = 0]
  by (simp add: default_config_def sample_world_simps retryable_server_error baseDelay_def
      delay_def jitter_def upt_rec)

subsection \<open>The breaker around the retry engine\<close>

lemma gate_world_downstream:
  "op_src (gate_world cb w) = op_src w" "op_calls (gate_world cb w) = op_calls w"
  by (simp_all add: gate_world_def Date_now_def)

lemma onFailure_op_calls: "op_calls (snd (onFailure cb w)) = op_calls w"
  by (simp add: onFailure_def Date_now_def Let_def)

lemma retryWithBackoff_stop:
  assumes "0 \<le> maxRetries config" and "op_src w (op_calls w) = Inl e"
    and "is_client_error e \<or> is_circuit_open e"
  shows "retryWithBackoff downstream config w = (Inl (Error e), w\<lparr>op_calls := Suc (op_calls w)\<rparr>)"
  unfolding retryWithBackoff_def using assms
  by (intro retry_loop_stop downstream_failure) simp_all

lemma execute_retry_stop:
  assumes "admitted cb w" and "0 \<le> maxRetries config" and "op_src w (op_calls w) = Inl e"
    and "is_client_error e \<or> is_circuit_open e"
  shows "execute (retryWithBackoff downstream config) cb w =
           (Inl (Error e),
            fst (onFailure (gate_breaker cb) ((gate_world cb w)\<lparr>op_calls := Suc (op_calls w)\<rparr>)),
            snd (onFailure (gate_breaker cb) ((gate_world cb w)\<lparr>op_calls := Suc (op_calls w)\<rparr>)))"
proof -
  have "retryWithBackoff downstream config (gate_world cb w) =
      (Inl (Error e), (gate_world cb w)\<lparr>op_calls := Suc (op_calls (gate_world cb w))\<rparr>)"
    using assms(2-4) by (intro retryWithBackoff_stop) (simp_all add: gate_world_downstream)
  then have "retryWithBackoff downstream config (gate_world cb w) =
      (Inl (Error e), (gate_world cb w)\<lparr>op_calls := Suc (op_calls w)\<rparr>)"
    by (simp add: gate_world_downstream)
  with assms(1) show ?thesis by (rule execute_admitted_failure)
qed

lemma execute_retry_exhausted:
  assumes "admitted cb w" and "0 \<le> maxRetries config"
    and "\<forall>i \<le> nat (maxRetries config). \<exists>error. op_src w (op_calls w + i) = Inl error \<and> retryable error"
  shows "fst (execute (retryWithBackoff downstream config) cb w)
           = Inl (Error (projl (op_src w (op_calls w + nat (maxRetries config)))))
       \<and> failureCount (fst (snd (execute (retryWithBackoff downstream config) cb w)))
           = failureCount cb + 1"
proof -
  let ?g = "gate_world cb w"
  have "\<forall>i \<le> nat (maxRetries config).
      \<exists>error. op_src ?g (op_calls ?g + i) = Inl error \<and> retryable error"
    using assms(3) by (simp add: gate_world_downstream)
  with assms(2) have "retryWithBackoff downstream config ?g =
      (Inl (Error (projl (op_src ?g (op_calls ?g + nat (maxRetries config))))),
       ?g\<lparr>op_calls := op_calls ?g + nat (maxRetries config) + 1,
          rand_reads := rand_reads ?g + nat (maxRetries config),
          slept := slept ?g @ map (\<lambda>i. delay config i (rand_src ?g (rand_reads ?g + i)))
                     [0..<nat (maxRetries config)]\<rparr>)"
    unfolding retryWithBackoff_def by (rule retry_loop_exhausted)
  with assms(1) have "execute (retryWithBackoff downstream config) cb w =
      (Inl (Error (projl (op_src ?g (op_calls ?g + nat (maxRetries config))))),
       fst (onFailure (gate_breaker cb)
         (?g\<lparr>op_calls := op_calls ?g + nat (maxRetries config) + 1,
          rand_reads := rand_reads ?g + nat (maxRetries config),
          slept := slept ?g @ map (\<lambda>i. delay config i (rand_src ?g (rand_reads ?g + i)))
                     [0..<nat (maxRetries config)]\<rparr>)),
       snd (onFailure (gate_breaker cb)
         (?g\<lparr>op_calls := op_calls ?g + nat (maxRetries config) + 1,
          rand_reads := rand_reads ?g + nat (maxRetries config),
          slept := slept ?g @ map (\<lambda>i. delay config i (rand_src ?g (rand_reads ?g + i)))
                     [0..<nat (maxRetries config)]\<rparr>)))"
    by (rule execute_admitted_failure)
  then show ?thesis
    by (simp add: onFailure_failureCount gate_breaker_failureCount gate_world_downstream)
qed

lemma post_register_unavailable:
  assumes "execute (retryWithBackoff downstream default_config) cb w = (Inl (Error x), cb1, w1)"
    and "is_circuit_open x"
  shows "post_register cb w =
           (Some \<lparr>http_status = 503,
                  http_body = Unavailable ''Service temporarily unavailable - circuit breaker is open''
                                (getState cb1)\<rparr>, cb1, w1)"
  using assms by (simp add: post_register_def)

lemma get_users_unavailable:
  assumes "execute (retryWithBackoff downstream default_config) cb w = (Inl (Error x), cb1, w1)"
    and "is_circuit_open x"
  shows "get_users cb w =
           (Some \<lparr>http_status = 503,
                  http_body = Unavailable ''Service temporarily unavailable'' (getState cb1)\<rparr>,
            cb1, w1)"
  using assms by (simp add: get_users_def)

subsection \<open>Client errors and the breaker\<close>

text \<open>
  C8. When the gate lets the call through and the first downstream answer is a client
  error (status from 400 up to, not including, 500), the retry engine rethrows it after
  that one request and \<^verbatim>\<open>execute\<close> counts it: \<open>failureCount\<close> is one more than
  before. The same increment follows a call whose attempts all fail with errors that are
  retried (server errors, timeouts, connection failures), and any operation that fails
  once admitted.
\<close>

theorem client_error_counts_as_breaker_failure:
  assumes "admitted cb w" and "0 \<le> maxRetries config"
  shows "(op_src w (op_calls w) = Inl e \<and> is_client_error e \<longrightarrow>
            fst (execute (retryWithBackoff downstream config) cb w) = Inl (Error e)
          \<and> failureCount (fst (snd (execute (retryWithBackoff downstream config) cb w)))
              = failureCount cb + 1
          \<and> op_calls (snd (snd (execute (retryWithBackoff downstream config) cb w)))
              = op_calls w + 1)
       \<and> ((\<forall>i \<le> nat (maxRetries config).
              \<exists>error. op_src w (op_calls w + i) = Inl error \<and> retryable error) \<longrightarrow>
            fst (execute (retryWithBackoff downstream config) cb w)
              = Inl (Error (projl (op_src w (op_calls w + nat (maxRetries config)))))
          \<and> failureCount (fst (snd (execute (retryWithBackoff downstream config) cb w)))
              = failureCount cb + 1)
       \<and> (operation (gate_world cb w) = (Inl x, w1) \<longrightarrow>
            fst (execute operation cb w) = Inl x
          \<and> failureCount (fst (snd (execute operation cb w))) = failureCount cb + 1)"
proof -
  have client: "fst (execute (retryWithBackoff downstream config) cb w) = Inl (Error e)
          \<and> failureCount (fst (snd (execute (retryWithBackoff downstream config) cb w)))
              = failureCount cb + 1
          \<and> op_calls (snd (snd (execute (retryWithBackoff downstream config) cb w)))
              = op_calls w + 1"
    if "op_src w (op_calls w) = Inl e \<and> is_client_error e"
    using assms that
    by (simp add: execute_retry_stop onFailure_failureCount gate_breaker_failureCount
        onFailure_op_calls)
  have other: "fst (execute (retryWithBackoff downstream config) cb w)
              = Inl (Error (projl (op_src w (op_calls w + nat (maxRetries config)))))
          \<and> failureCount (fst (snd (execute (retryWithBackoff downstream config) cb w)))
              = failureCount cb + 1"
    if "\<forall>i \<le> nat (maxRetries config).
              \<exists>error. op_src w (op_calls w + i) = Inl error \<and> retryable error"
    using assms that by (intro execute_retry_exhausted)
  have any: "fst (execute operation cb w) = Inl x
          \<and> failureCount (fst (snd (execute operation cb w))) = failureCount cb + 1"
    if "operation (gate_world cb w) = (Inl x, w1)"
    using assms(1) that
    by (simp add: execute_admitted_failure onFailure_failureCount gate_breaker_failureCount)
  from client other any show ?thesis by blast
qed

theorem client_error_counts_as_breaker_failure_witness:
  "admitted circuitBreaker (sample_world 1000 0 (\<lambda>k. Inl not_found))
   \<and> 0 \<le> maxRetries default_config
   \<and> fst (execute (retryWithBackoff downstream default_config) circuitBreaker
        (sample_world 1000 0 (\<lambda>k. Inl not_found))) = Inl (Error not_found)
   \<and> failureCount (fst (snd (execute (retryWithBackoff downstream default_config) circuitBreaker
        (sample_world 1000 0 (\<lambda>k. Inl not_found))))) = 1
   \<and> op_calls (snd (snd (execute (retryWithBackoff downstream default_config) circuitBreaker
        (sample_world 1000 0 (\<lambda>k. Inl not_found))))) = 1
   \<and> failureCount (fst (snd (execute (retryWithBackoff downstream default_config) circuitBreaker
        (sample_world 1000 0 (\<lambda>k. Inl server_error))))) = 1"
  using
    client_error_counts_as_breaker_failure [where cb = circuitBreaker and config = default_config
        and w = "sample_world 1000 0 (\<lambda>k. Inl not_found)" and e = not_found
        and operation = "\<lambda>w. (Inl (Error timed_out) :: thrown + payload, w)"
        and x = "Error timed_out" and ?w1.0 = "sample_world 1000 0 (\<lambda>k. Inl not_found)"]
    client_error_counts_as_breaker_failure [where cb = circuitBreaker and config = default_config
        and w = "sample_world 1000 0 (\<lambda>k. Inl server_error)" and e = server_error
        and operation = "\<lambda>w. (Inl (Error timed_out) :: thrown + payload, w)"
        and x = "Error timed_out" and ?w1.0 = "sample_world 1000 0 (\<lambda>k. Inl server_error)"]
  by (simp add: admitted_def circuitBreaker_def new_CircuitBreaker_def default_config_def
      sample_world_simps is_client_error_not_found retryable_server_error)

subsection \<open>The breaker's message in a downstream error\<close>

text \<open>
  C10. The breaker's signal is recognised by its text alone. For every error whose
  message contains "Circuit breaker is OPEN" and that the backend answers first with,
  whatever else it carries: the retry engine makes that one request and rethrows the
  error, and both routes answer 503 with their "Service temporarily unavailable" text and
  the breaker's status, not with the error's own response. The status attached is that
  of the breaker as the request leaves it: its \<open>state\<close>, \<open>failureCount\<close> and
  \<open>successCount\<close>, and its \<open>nextAttemptTime\<close> when the state is OPEN, none
  otherwise. When the gate let the call through, that breaker is the one
  \<^verbatim>\<open>onFailure\<close> leaves after the single request, with \<open>failureCount\<close> one more
  than before; when the gate rejected the call, it is the breaker unchanged and no
  request was sent.
\<close>

theorem breaker_message_recognised_by_substring:
  assumes "str_includes (message e) ''Circuit breaker is OPEN''"
    and "op_src w (op_calls w) = Inl e"
  shows "(0 \<le> maxRetries config \<longrightarrow>
            retryWithBackoff downstream config w = (Inl (Error e), w\<lparr>op_calls := Suc (op_calls w)\<rparr>))
       \<and> fst (post_register cb w) =
           Some \<lparr>http_status = 503,
                 http_body = Unavailable ''Service temporarily unavailable - circuit breaker is open''
                               (getState (fst (snd (post_register cb w))))\<rparr>
       \<and> fst (get_users cb w) =
           Some \<lparr>http_status = 503,
                 http_body = Unavailable ''Service temporarily unavailable''
                               (getState (fst (snd (get_users cb w))))\<rparr>
       \<and> (admitted cb w \<longrightarrow>
            op_calls (snd (snd (post_register cb w))) = op_calls w + 1
          \<and> op_calls (snd (snd (get_users cb w))) = op_calls w + 1)
       \<and> fst (post_register cb w) =
           Some \<lparr>http_status = 503,
                 http_body = Unavailable ''Service temporarily unavailable - circuit breaker is open''
                   \<lparr>st_state = state (fst (snd (post_register cb w))),
                    st_failureCount = failureCount (fst (snd (post_register cb w))),
                    st_successCount = successCount (fst (snd (post_register cb w))),
                    st_nextAttemptTime =
                      (if state (fst (snd (post_register cb w))) = OPEN
                       then Some (nextAttemptTime (fst (snd (post_register cb w)))) else None)\<rparr>\<rparr>
       \<and> fst (get_users cb w) =
           Some \<lparr>http_status = 503,
                 http_body = Unavailable ''Service temporarily unavailable''
                   \<lparr>st_state = state (fst (snd (get_users cb w))),
                    st_failureCount = failureCount (fst (snd (get_users cb w))),
                    st_successCount = successCount (fst (snd (get_users cb w))),
                    st_nextAttemptTime =
                      (if state (fst (snd (get_users cb w))) = OPEN
                       then Some (nextAttemptTime (fst (snd (get_users cb w)))) else None)\<rparr>\<rparr>
       \<and> (admitted cb w \<longrightarrow>
            fst (snd (post_register cb w)) =
              fst (onFailure (gate_breaker cb) ((gate_world cb w)\<lparr>op_calls := Suc (op_calls w)\<rparr>))
          \<and> fst (snd (get_users cb w)) =
              fst (onFailure (gate_breaker cb) ((gate_world cb w)\<lparr>op_calls := Suc (op_calls w)\<rparr>))
          \<and> failureCount (fst (snd (post_register cb w))) = failureCount cb + 1
          \<and> failureCount (fst (snd (get_users cb w))) = failureCount cb + 1)
       \<and> (\<not> admitted cb w \<longrightarrow>
            fst (snd (post_register cb w)) = cb \<and> fst (snd (get_users cb w)) = cb
          \<and> op_calls (snd (snd (post_register cb w))) = op_calls w
          \<and> op_calls (snd (snd (get_users cb w))) = op_calls w)"
proof -
  from assms(1) have sig: "is_circuit_open e" by (simp add: is_circuit_open_def)
  have retry: "retryWithBackoff downstream config w = (Inl (Error e), w\<lparr>op_calls := Suc (op_calls w)\<rparr>)"
    if "0 \<le> maxRetries config"
    using that assms(2) sig by (intro retryWithBackoff_stop) simp_all
  show ?thesis
  proof (cases "admitted cb w")
    case True
    let ?w1 = "(gate_world cb w)\<lparr>op_calls := Suc (op_calls w)\<rparr>"
    let ?cb1 = "fst (onFailure (gate_breaker cb) ?w1)"
    let ?w2 = "snd (onFailure (gate_breaker cb) ?w1)"
    have "0 \<le> maxRetries default_config" by (simp add: default_config_def)
    with True have run: "execute (retryWithBackoff downstream default_config) cb w =
        (Inl (Error e), ?cb1, ?w2)"
      using assms(2) sig by (intro execute_retry_stop) simp_all
    have reg: "post_register cb w =
        (Some \<lparr>http_status = 503,
               http_body = Unavailable ''Service temporarily unavailable - circuit breaker is open''
                             (getState ?cb1)\<rparr>, ?cb1, ?w2)"
      using run sig by (rule post_register_unavailable)
    have get: "get_users cb w =
        (Some \<lparr>http_status = 503,
               http_body = Unavailable ''Service temporarily unavailable'' (getState ?cb1)\<rparr>,
         ?cb1, ?w2)"
      using run sig by (rule get_users_unavailable)
    have count: "failureCount ?cb1 = failureCount cb + 1"
      by (simp add: onFailure_failureCount gate_breaker_failureCount)
    have calls: "op_calls ?w2 = op_calls w + 1" by (simp add: onFailure_op_calls)
    have view: "getState ?cb1 =
        \<lparr>st_state = state ?cb1, st_failureCount = failureCount ?cb1,
         st_successCount = successCount ?cb1,
         st_nextAttemptTime = (if state ?cb1 = OPEN then Some (nextAttemptTime ?cb1) else None)\<rparr>"
      by (rule getState_def)
    from True retry count calls view show ?thesis
      by (simp only: reg get fst_conv snd_conv) simp
  next
    case False
    then have "state cb = OPEN" and "fst (Date_now w) < nextAttemptTime cb"
      by (auto simp: admitted_def)
    then have run: "execute (retryWithBackoff downstream default_config) cb w =
        (Inl (Error circuit_open_error), cb, snd (Date_now w))"
      by (rule execute_rejected)
    have reg: "post_register cb w =
        (Some \<lparr>http_status = 503,
               http_body = Unavailable ''Service temporarily unavailable - circuit breaker is open''
                             (getState cb)\<rparr>, cb, snd (Date_now w))"
      using run is_circuit_open_signal by (rule post_register_unavailable)
    have get: "get_users cb w =
        (Some \<lparr>http_status = 503,
               http_body = Unavailable ''Service temporarily unavailable'' (getState cb)\<rparr>,
         cb, snd (Date_now w))"
      using run is_circuit_open_signal by (rule get_users_unavailable)
    have calls: "op_calls (snd (Date_now w)) = op_calls w" by (simp add: Date_now_snd)
    have view: "getState cb =
        \<lparr>st_state = state cb, st_failureCount = failureCount cb,
         st_successCount = successCount cb,
         st_nextAttemptTime = (if state cb = OPEN then Some (nextAttemptTime cb) else None)\<rparr>"
      by (rule getState_def)
    from False retry calls view show ?thesis
      by (simp only: reg get fst_conv snd_conv) simp
  qed
qed

theorem breaker_message_recognised_by_substring_witness:
  "str_includes (message echoing_error) ''Circuit breaker is OPEN''
   \<and> response echoing_error = Some \<lparr>status = 500, data = ''proxy failure''\<rparr>
   \<and> retryWithBackoff downstream default_config (sample_world 1000 0 (\<lambda>k. Inl echoing_error))
       = (Inl (Error echoing_error), (sample_world 1000 0 (\<lambda>k. Inl echoing_error))\<lparr>op_calls := 1\<rparr>)
   \<and> http_status (the (fst (post_register circuitBreaker
        (sample_world 1000 0 (\<lambda>k. Inl echoing_error))))) = 503
   \<and> http_status (the (fst (get_users circuitBreaker
        (sample_world 1000 0 (\<lambda>k. Inl echoing_error))))) = 503
   \<and> op_calls (snd (snd (post_register circuitBreaker
        (sample_world 1000 0 (\<lambda>k. Inl echoing_error))))) = 1
   \<and> fst (post_register circuitBreaker (sample_world 1000 0 (\<lambda>k. Inl echoing_error)))
       = Some \<lparr>http_status = 503,
               http_body = Unavailable ''Service temporarily unavailable - circuit breaker is open''
                 \<lparr>st_state = CLOSED, st_failureCount = 1, st_successCount = 0,
                  st_nextAttemptTime = None\<rparr>\<rparr>
   \<and> fst (get_users (circuitBreaker\<lparr>failureCount := 4\<rparr>)
        (sample_world 1000 0 (\<lambda>k. Inl echoing_error)))
       = Some \<lparr>http_status = 503,
               http_body = Unavailable ''Service temporarily unavailable''
                 \<lparr>st_state = OPEN, st_failureCount = 5, st_successCount = 0,
                  st_nextAttemptTime = Some 61000\<rparr>\<rparr>
   \<and> fst (post_register (circuitBreaker\<lparr>state := OPEN, failureCount := 5, nextAttemptTime := 61000\<rparr>)
        (sample_world 1000 0 (\<lambda>k. Inl echoing_error)))
       = Some \<lparr>http_status = 503,
               http_body = Unavailable ''Service temporarily unavailable - circuit breaker is open''
                 \<lparr>st_state = OPEN, st_failureCount = 5, st_successCount = 0,
                  st_nextAttemptTime = Some 61000\<rparr>\<rparr>
   \<and> op_calls (snd (snd (post_register
        (circuitBreaker\<lparr>state := OPEN, failureCount := 5, nextAttemptTime := 61000\<rparr>)
        (sample_world 1000 0 (\<lambda>k. Inl echoing_error))))) = 0"
proof -
  let ?w = "sample_world 1000 0 (\<lambda>k. Inl echoing_error)"
  let ?tripping = "circuitBreaker\<lparr>failureCount := 4\<rparr>"
  let ?open = "circuitBreaker\<lparr>state := OPEN, failureCount := 5, nextAttemptTime := 61000\<rparr>"
  have words: "str_includes (message echoing_error) ''Circuit breaker is OPEN''"
    by (simp add: echoing_error_def)
  have reply: "op_src ?w (op_calls ?w) = Inl echoing_error"
    by (simp add: sample_world_simps)
  have retries: "0 \<le> maxRetries default_config" by (simp add: default_config_def)
  have carried: "response echoing_error = Some \<lparr>status = 500, data = ''proxy failure''\<rparr>"
    by (simp add: echoing_error_def)
  have adm1: "admitted circuitBreaker ?w"
    by (simp add: admitted_def circuitBreaker_def new_CircuitBreaker_def)
  have adm2: "admitted ?tripping ?w"
    by (simp add: admitted_def circuitBreaker_def new_CircuitBreaker_def)
  have rej: "\<not> admitted ?open ?w"
    by (simp add: admitted_def Date_now_def sample_world_simps)
  have after1: "fst (onFailure (gate_breaker circuitBreaker)
        ((gate_world circuitBreaker ?w)\<lparr>op_calls := Suc (op_calls ?w)\<rparr>))
      = circuitBreaker\<lparr>failureCount := 1, lastFailureTime := 1000\<rparr>"
    by (simp add: circuitBreaker_def new_CircuitBreaker_def gate_breaker_def gate_world_def
        onFailure_def Date_now_def Let_def sample_world_simps)
  have after2: "fst (onFailure (gate_breaker ?tripping)
        ((gate_world ?tripping ?w)\<lparr>op_calls := Suc (op_calls ?w)\<rparr>))
      = circuitBreaker\<lparr>failureCount := 5, lastFailureTime := 1000, state := OPEN,
                        nextAttemptTime := 61000\<rparr>"
    by (simp add: circuitBreaker_def new_CircuitBreaker_def gate_breaker_def gate_world_def
        onFailure_def Date_now_def Let_def sample_world_simps)
  note one = breaker_message_recognised_by_substring
      [OF words reply, where config = default_config and cb = circuitBreaker]
  note two = breaker_message_recognised_by_substring
      [OF words reply, where config = default_config and cb = ?tripping]
  note three = breaker_message_recognised_by_substring
      [OF words reply, where config = default_config and cb = ?open]
  from one retries have r: "retryWithBackoff downstream default_config ?w
       = (Inl (Error echoing_error), ?w\<lparr>op_calls := 1\<rparr>)"
    by (simp add: sample_world_simps)
  from one adm1 have cb1: "fst (snd (post_register circuitBreaker ?w))
      = circuitBreaker\<lparr>failureCount := 1, lastFailureTime := 1000\<rparr>"
    by (simp only: after1)
  from one adm1 have calls1: "op_calls (snd (snd (post_register circuitBreaker ?w))) = 1"
    by (simp add: sample_world_simps)
  from one have "fst (post_register circuitBreaker ?w) =
           Some \<lparr>http_status = 503,
                 http_body = Unavailable ''Service temporarily unavailable - circuit breaker is open''
                   \<lparr>st_state = state (fst (snd (post_register circuitBreaker ?w))),
                    st_failureCount = failureCount (fst (snd (post_register circuitBreaker ?w))),
                    st_successCount = successCount (fst (snd (post_register circuitBreaker ?w))),
                    st_nextAttemptTime =
                      (if state (fst (snd (post_register circuitBreaker ?w))) = OPEN
                       then Some (nextAttemptTime (fst (snd (post_register circuitBreaker ?w))))
                       else None)\<rparr>\<rparr>"
    by blast
  then have body1: "fst (post_register circuitBreaker ?w)
       = Some \<lparr>http_status = 503,
               http_body = Unavailable ''Service temporarily unavailable - circuit breaker is open''
                 \<lparr>st_state = CLOSED, st_failureCount = 1, st_successCount = 0,
                  st_nextAttemptTime = None\<rparr>\<rparr>"
    unfolding cb1 by (simp add: circuitBreaker_def new_CircuitBreaker_def)
  from one have "fst (get_users circuitBreaker ?w) =
           Some \<lparr>http_status = 503,
                 http_body = Unavailable ''Service temporarily unavailable''
                               (getState (fst (snd (get_users circuitBreaker ?w))))\<rparr>"
    by blast
  then have status1: "http_status (the (fst (get_users circuitBreaker ?w))) = 503" by simp
  from two adm2 have cb2: "fst (snd (get_users ?tripping ?w))
      = circuitBreaker\<lparr>failureCount := 5, lastFailureTime := 1000, state := OPEN,
                        nextAttemptTime := 61000\<rparr>"
    by (simp only: after2)
  from two have "fst (get_users ?tripping ?w) =
           Some \<lparr>http_status = 503,
                 http_body = Unavailable ''Service temporarily unavailable''
                   \<lparr>st_state = state (fst (snd (get_users ?tripping ?w))),
                    st_failureCount = failureCount (fst (snd (get_users ?tripping ?w))),
                    st_successCount = successCount (fst (snd (get_users ?tripping ?w))),
                    st_nextAttemptTime =
                      (if state (fst (snd (get_users ?tripping ?w))) = OPEN
                       then Some (nextAttemptTime (fst (snd (get_users ?tripping ?w))))
                       else None)\<rparr>\<rparr>"
    by blast
  then have body2: "fst (get_users ?tripping ?w)
       = Some \<lparr>http_status = 503,
               http_body = Unavailable ''Service temporarily unavailable''
                 \<lparr>st_state = OPEN, st_failureCount = 5, st_successCount = 0,
                  st_nextAttemptTime = Some 61000\<rparr>\<rparr>"
    unfolding cb2 by (simp add: circuitBreaker_def new_CircuitBreaker_def)
  from three rej have cb3: "fst (snd (post_register ?open ?w)) = ?open"
    and calls3: "op_calls (snd (snd (post_register ?open ?w))) = 0"
    by (simp_all add: sample_world_simps)
  from three have "fst (post_register ?open ?w) =
           Some \<lparr>http_status = 503,
                 http_body = Unavailable ''Service temporarily unavailable - circuit breaker is open''
                   \<lparr>st_state = state (fst (snd (post_register ?open ?w))),
                    st_failureCount = failureCount (fst (snd (post_register ?open ?w))),
                    st_successCount = successCount (fst (snd (post_register ?open ?w))),
                    st_nextAttemptTime =
                      (if state (fst (snd (post_register ?open ?w))) = OPEN
                       then Some (nextAttemptTime (fst (snd (post_register ?open ?w))))
                       else None)\<rparr>\<rparr>"
    by blast
  then have body3: "fst (post_register ?open ?w)
       = Some \<lparr>http_status = 503,
               http_body = Unavailable ''Service temporarily unavailable - circuit breaker is open''
                 \<lparr>st_state = OPEN, st_failureCount = 5, st_successCount = 0,
                  st_nextAttemptTime = Some 61000\<rparr>\<rparr>"
    unfolding cb3 by (simp add: circuitBreaker_def new_CircuitBreaker_def)
  from words carried r body1 status1 calls1 body2 body3 calls3 show ?thesis by simp
qed

subsection \<open>A downstream 404 on the two routes\<close>

text \<open>
  C7. With the breaker as constructed and a backend that answers 404 "User not found":
  \<^verbatim>\<open>GET /api/users\<close> sends one request and answers 500 "Failed to fetch users"
  with the error's message, while \<^verbatim>\<open>POST /api/users/register\<close> answers with the
  backend's own status 404 and body.
\<close>

theorem get_users_does_not_forward_404:
  "fst (get_users circuitBreaker (sample_world 1000 0 (\<lambda>k. Inl not_found)))
     = Some \<lparr>http_status = 500,
             http_body = Failed ''Failed to fetch users'' ''Request failed with status code 404''\<rparr>
   \<and> op_calls (snd (snd (get_users circuitBreaker (sample_world 1000 0 (\<lambda>k. Inl not_found))))) = 1
   \<and> fst (post_register circuitBreaker (sample_world 1000 0 (\<lambda>k. Inl not_found)))
     = Some \<lparr>http_status = 404, http_body = Json ''User not found''\<rparr>"
proof -
  let ?w = "sample_world 1000 0 (\<lambda>k. Inl not_found)"
  have "admitted circuitBreaker ?w"
    by (simp add: admitted_def circuitBreaker_def new_CircuitBreaker_def)
  then have run: "execute (retryWithBackoff downstream default_config) circuitBreaker ?w =
      (Inl (Error not_found),
       fst (onFailure (gate_breaker circuitBreaker)
              ((gate_world circuitBreaker ?w)\<lparr>op_calls := Suc (op_calls ?w)\<rparr>)),
       snd (onFailure (gate_breaker circuitBreaker)
              ((gate_world circuitBreaker ?w)\<lparr>op_calls := Suc (op_calls ?w)\<rparr>)))"
    by (intro execute_retry_stop)
      (simp_all add: default_config_def sample_world_simps is_client_error_not_found)
  have no: "\<not> is_circuit_open not_found"
    by (simp add: is_circuit_open_def not_found_def)
  show ?thesis
    using no
    by (simp add: get_users_def post_register_def run onFailure_op_calls sample_world_simps)
      (simp add: not_found_def)
qed

end
